theory Spec2Isabelle
  imports Complex_Main "HOL-Library.AList"
begin

section \<open>Numbers, dictionaries and failures\<close>

text \<open>
  The model follows \<^verbatim>\<open>src/lbo_model.py\<close> (class \<^verbatim>\<open>LBOAnalysis\<close>).
  \<^item> Python numbers are idealised as \<^typ>\<open>real\<close>: rounding of binary floating point is
    not modelled. \<^verbatim>\<open>min\<close>, \<^verbatim>\<open>max\<close> and the comparisons are those of the reals.
  \<^item> A Python \<^verbatim>\<open>dict\<close> is an association list in insertion order whose keys are
    distinct; \<^verbatim>\<open>d[k] = v\<close> is \<^const>\<open>AList.update\<close> (it overwrites in place or appends),
    \<^verbatim>\<open>d[k]\<close> is \<open>getitem\<close>, which raises \<^verbatim>\<open>KeyError\<close> on a missing key, and the
    truth value of a dict is \<open>d \<noteq> []\<close>.
  \<^item> An exception is a value \<open>Inl e\<close>. A method that prints an error message and
    executes \<^verbatim>\<open>return None\<close> yields \<open>Inr (None, s)\<close> with the object \<open>s\<close> unchanged.
    Every method assigns to \<^verbatim>\<open>self\<close> only in its last statements, so an exception
    leaves the object as it was.
  \<^item> \<^verbatim>\<open>print\<close> calls are omitted.
\<close>

datatype error = KeyError | IndexError | ZeroDivisionError

type_synonym ('k, 'v) dict = "('k \<times> 'v) list"

definition getitem :: "('k, 'v) dict \<Rightarrow> 'k \<Rightarrow> error + 'v" where
  "getitem d k = (case map_of d k of None \<Rightarrow> Inl KeyError | Some v \<Rightarrow> Inr v)"

definition list_getitem :: "'a list \<Rightarrow> int \<Rightarrow> error + 'a" where
  \<comment> \<open>\<^verbatim>\<open>xs[i]\<close> on a list: \<^verbatim>\<open>xs[-1]\<close> is the last element, and an index outside
      \<^verbatim>\<open>-len(xs) .. len(xs) - 1\<close> raises \<^verbatim>\<open>IndexError\<close>.\<close>
  "list_getitem xs i =
     (if 0 \<le> i
      then (if i < int (length xs) then Inr (xs ! nat i) else Inl IndexError)
      else (if - int (length xs) \<le> i then Inr (xs ! nat (int (length xs) + i))
            else Inl IndexError))"

definition truediv :: "real \<Rightarrow> real \<Rightarrow> error + real" where
  \<comment> \<open>\<^verbatim>\<open>a / b\<close>\<close>
  "truediv a b = (if b = 0 then Inl ZeroDivisionError else Inr (a / b))"

section \<open>Data model\<close>

text \<open>The field \<^verbatim>\<open>'term'\<close> of a tranche is named \<open>term_years\<close>.\<close>

record tranche =
  amount :: real
  rate :: real
  term_years :: int
  amortization :: real
  seniority :: int

record operating_year =
  revenue :: real
  ebitda :: real
  ebit :: real
  depreciation :: real
  interest_expense :: real
  ebt :: real
  taxes :: real
  net_income :: real
  operating_cash_flow :: real
  capex :: real
  nwc_change :: real
  free_cash_flow :: real

record tranche_year =
  beginning_balance :: real
  mandatory_payment :: real
  optional_payment :: real
  total_payment :: real
  interest_payment :: real
  ending_balance :: real

text \<open>One row of the data frame returned by \<^verbatim>\<open>sensitivity_analysis\<close>.\<close>

record sensitivity_cell =
  revenue_adj :: real
  ebitda_adj :: real
  irr :: real
  moic :: real

record exit_scenario =
  exit_multiple :: real
  enterprise_value :: real
  remaining_debt :: real
  equity_value :: real
  moic :: real
  irr :: real

type_synonym year_schedule = "(string, tranche_year) dict"

record lbo_analysis =
  company_name :: string
  purchase_price :: real
  sponsor_equity :: real
  total_debt :: real
  debt_structure :: "(string, tranche) dict"
  operating_model :: "(int, operating_year) dict"
  debt_schedule :: "(int, year_schedule) dict"
  returns_analysis :: "(string, exit_scenario) dict"

definition init :: "string \<Rightarrow> real \<Rightarrow> real \<Rightarrow> lbo_analysis" where
  \<comment> \<open>\<^verbatim>\<open>LBOAnalysis.__init__\<close>\<close>
  "init name price equity =
     \<lparr>company_name = name, purchase_price = price, sponsor_equity = equity,
      total_debt = price - equity, debt_structure = [], operating_model = [],
      debt_schedule = [], returns_analysis = []\<rparr>"

section \<open>Debt structure\<close>

definition structure_debt ::
  "lbo_analysis \<Rightarrow> real \<Rightarrow> real \<Rightarrow> real \<Rightarrow> real \<Rightarrow> (string, tranche) dict \<times> lbo_analysis" where
  "structure_debt s term_loan_a term_loan_b revolver subordinated =
     (let ds =
        [(''Term Loan A'',
            \<lparr>amount = term_loan_a, rate = 45 / 1000, term_years = 7,
             amortization = 15 / 100, seniority = 1\<rparr>),
         (''Term Loan B'',
            \<lparr>amount = term_loan_b, rate = 65 / 1000, term_years = 8,
             amortization = 1 / 100, seniority = 2\<rparr>),
         (''Revolver'',
            \<lparr>amount = revolver, rate = 35 / 1000, term_years = 5,
             amortization = 0, seniority = 1\<rparr>),
         (''Subordinated Debt'',
            \<lparr>amount = subordinated, rate = 85 / 1000, term_years = 10,
             amortization = 0, seniority = 3\<rparr>)]
      in (ds, s\<lparr>debt_structure := ds\<rparr>))"

section \<open>Operating projector\<close>

definition years :: "int list" where
  "years = [1, 2, 3, 4, 5]"

definition interest_for_year :: "lbo_analysis \<Rightarrow> int \<Rightarrow> error + real" where
  \<comment> \<open>The interest expense of one projection year.\<close>
  "interest_for_year s year =
     (if debt_structure s \<noteq> [] then
        (let total_debt_amount = sum_list (map (\<lambda>(tranche, debt). amount debt) (debt_structure s))
         in case (if total_debt_amount > 0
                  then truediv (sum_list (map (\<lambda>(tranche, debt). amount debt * rate debt)
                                   (debt_structure s))) total_debt_amount
                  else Inr 0) of
              Inl e \<Rightarrow> Inl e
            | Inr weighted_avg_rate \<Rightarrow>
                (let debt_reduction_factor = (9 / 10) powi (year - 1)
                 in Inr (total_debt_amount * weighted_avg_rate * debt_reduction_factor)))
      else Inr 0)"

definition operating_entry ::
  "lbo_analysis \<Rightarrow> real \<Rightarrow> real list \<Rightarrow> real \<Rightarrow> real \<Rightarrow> real \<Rightarrow> real
     \<Rightarrow> (int, operating_year) dict \<Rightarrow> nat \<Rightarrow> int \<Rightarrow> error + operating_year" where
  \<comment> \<open>The body of the loop of \<^verbatim>\<open>build_operating_model\<close> for index \<open>i\<close> and year \<open>year\<close>.\<close>
  "operating_entry s base_revenue revenue_growth ebitda_margin capex_rate nwc_rate tax_rate
       model i year =
     (case (if year = 1 then Inr base_revenue
            else case (if int i - 1 < int (length revenue_growth)
                       then list_getitem revenue_growth (int i - 1)
                       else list_getitem revenue_growth (- 1)) of
                   Inl e \<Rightarrow> Inl e
                 | Inr growth_rate \<Rightarrow>
                     (case getitem model (year - 1) of
                        Inl e \<Rightarrow> Inl e
                      | Inr prev \<Rightarrow> Inr (revenue prev * (1 + growth_rate)))) of
        Inl e \<Rightarrow> Inl e
      | Inr revenue_v \<Rightarrow>
         (let ebitda_v = revenue_v * ebitda_margin;
              depreciation_v = revenue_v * (3 / 100);
              ebit_v = ebitda_v - depreciation_v
          in case interest_for_year s year of
               Inl e \<Rightarrow> Inl e
             | Inr interest \<Rightarrow>
                (let ebt_v = ebit_v - interest;
                     taxes_v = max 0 (ebt_v * tax_rate);
                     net_income_v = ebt_v - taxes_v;
                     operating_cash_flow_v = net_income_v + depreciation_v;
                     capex_v = revenue_v * capex_rate
                 in case (if year = 1 then Inr 0
                          else case getitem model (year - 1) of
                                 Inl e \<Rightarrow> Inl e
                               | Inr prev \<Rightarrow> Inr ((revenue_v - revenue prev) * nwc_rate)) of
                      Inl e \<Rightarrow> Inl e
                    | Inr nwc \<Rightarrow>
                        Inr \<lparr>revenue = revenue_v, ebitda = ebitda_v, ebit = ebit_v,
                             depreciation = depreciation_v, interest_expense = interest,
                             ebt = ebt_v, taxes = taxes_v, net_income = net_income_v,
                             operating_cash_flow = operating_cash_flow_v, capex = capex_v,
                             nwc_change = nwc,
                             free_cash_flow = operating_cash_flow_v - capex_v - nwc\<rparr>)))"

fun operating_loop ::
  "lbo_analysis \<Rightarrow> real \<Rightarrow> real list \<Rightarrow> real \<Rightarrow> real \<Rightarrow> real \<Rightarrow> real
     \<Rightarrow> (nat \<times> int) list \<Rightarrow> (int, operating_year) dict \<Rightarrow> error + (int, operating_year) dict" where
  "operating_loop s base_revenue revenue_growth ebitda_margin capex_rate nwc_rate tax_rate
       [] model = Inr model"
| "operating_loop s base_revenue revenue_growth ebitda_margin capex_rate nwc_rate tax_rate
       ((i, year) # rest) model =
     (case operating_entry s base_revenue revenue_growth ebitda_margin capex_rate nwc_rate
             tax_rate model i year of
        Inl e \<Rightarrow> Inl e
      | Inr oy \<Rightarrow>
          operating_loop s base_revenue revenue_growth ebitda_margin capex_rate nwc_rate tax_rate
            rest (AList.update year oy model))"

definition build_operating_model ::
  "lbo_analysis \<Rightarrow> real \<Rightarrow> real list \<Rightarrow> real \<Rightarrow> real \<Rightarrow> real \<Rightarrow> real
     \<Rightarrow> error + ((int, operating_year) dict \<times> lbo_analysis)" where
  "build_operating_model s base_revenue revenue_growth ebitda_margin capex_rate nwc_rate tax_rate =
     (case operating_loop s base_revenue revenue_growth ebitda_margin capex_rate nwc_rate
             tax_rate (List.enumerate 0 years) [] of
        Inl e \<Rightarrow> Inl e
      | Inr model \<Rightarrow> Inr (model, s\<lparr>operating_model := model\<rparr>))"

text \<open>The defaults of the keyword arguments of \<^verbatim>\<open>build_operating_model\<close>.\<close>

definition default_capex_rate :: real where
  "default_capex_rate = 3 / 100"

definition default_nwc_rate :: real where
  "default_nwc_rate = 2 / 100"

definition default_tax_rate :: real where
  "default_tax_rate = 25 / 100"

section \<open>Debt scheduler\<close>

definition tranche_entry :: "string \<Rightarrow> tranche \<Rightarrow> real \<Rightarrow> real \<Rightarrow> tranche_year" where
  \<comment> \<open>The record built for one tranche in one year, from its beginning balance
      \<open>beginning\<close> and the cash \<open>cash\<close> remaining in the pool at its turn.\<close>
  "tranche_entry tranche terms beginning cash =
     (let mandatory = min (beginning * amortization terms) beginning;
          optional =
            (if cash > mandatory \<and> tranche = ''Term Loan B''
             then min (cash - mandatory) (beginning - mandatory)
             else 0);
          total = mandatory + optional
      in \<lparr>beginning_balance = beginning,
          mandatory_payment = mandatory,
          optional_payment = optional,
          total_payment = total,
          interest_payment = beginning * rate terms,
          ending_balance = max 0 (beginning - total)\<rparr>)"

fun tranche_loop ::
  "(string \<times> tranche) list \<Rightarrow> year_schedule \<times> real \<times> (string, real) dict
     \<Rightarrow> error + (year_schedule \<times> real \<times> (string, real) dict)" where
  "tranche_loop [] st = Inr st"
| "tranche_loop ((tranche, terms) # rest) (year_sched, remaining_cash, debt_balances) =
     (case getitem debt_balances tranche of
        Inl e \<Rightarrow> Inl e
      | Inr beginning \<Rightarrow>
          (let r = tranche_entry tranche terms beginning remaining_cash
           in tranche_loop rest
                (AList.update tranche r year_sched,
                 remaining_cash - total_payment r,
                 AList.update tranche (ending_balance r) debt_balances)))"

fun year_loop ::
  "lbo_analysis \<Rightarrow> int list \<Rightarrow> (int, year_schedule) dict \<times> (string, real) dict
     \<Rightarrow> error + ((int, year_schedule) dict \<times> (string, real) dict)" where
  "year_loop s [] st = Inr st"
| "year_loop s (year # rest) (schedule, debt_balances) =
     (case getitem (operating_model s) year of
        Inl e \<Rightarrow> Inl e
      | Inr oy \<Rightarrow>
          (case tranche_loop (debt_structure s) ([], free_cash_flow oy, debt_balances) of
             Inl e \<Rightarrow> Inl e
           | Inr (year_sched, remaining_cash, debt_balances') \<Rightarrow>
               year_loop s rest (AList.update year year_sched schedule, debt_balances')))"

definition initial_balances :: "(string, tranche) dict \<Rightarrow> (string, real) dict" where
  "initial_balances ds = fold (\<lambda>(tranche, terms). AList.update tranche (amount terms)) ds []"

definition model_debt_schedule ::
  "lbo_analysis \<Rightarrow> error + ((int, year_schedule) dict option \<times> lbo_analysis)" where
  "model_debt_schedule s =
     (if debt_structure s = [] \<or> operating_model s = [] then Inr (None, s)
      else case year_loop s years ([], initial_balances (debt_structure s)) of
             Inl e \<Rightarrow> Inl e
           | Inr (schedule, debt_balances) \<Rightarrow>
               Inr (Some schedule, s\<lparr>debt_schedule := schedule\<rparr>))"

section \<open>Exit and returns evaluator\<close>

definition exit_entry ::
  "lbo_analysis \<Rightarrow> real \<Rightarrow> real \<Rightarrow> int \<Rightarrow> real \<Rightarrow> error + exit_scenario" where
  \<comment> \<open>The record built for one exit multiple.\<close>
  "exit_entry s exit_ebitda total_remaining_debt exit_year multiple =
     (let ev = exit_ebitda * multiple;
          equity = max 0 (ev - total_remaining_debt)
      in case (if sponsor_equity s > 0 then truediv equity (sponsor_equity s) else Inr 0) of
           Inl e \<Rightarrow> Inl e
         | Inr m \<Rightarrow>
            (case (if m > 0
                   then case truediv 1 (of_int exit_year) of
                          Inl e \<Rightarrow> Inl e
                        | Inr q \<Rightarrow> Inr (m powr q - 1)
                   else Inr (- 1)) of
               Inl e \<Rightarrow> Inl e
             | Inr i \<Rightarrow>
                 Inr \<lparr>exit_multiple = multiple, enterprise_value = ev,
                      remaining_debt = total_remaining_debt, equity_value = equity,
                      exit_scenario.moic = m, exit_scenario.irr = i\<rparr>))"

text \<open>
  The key \<^verbatim>\<open>f"{multiple:.1f}x"\<close> of a scenario: the multiple with one decimal place,
  the tenths rounded to the nearest, a tie to the even one. It is computed on the
  idealised value: the rounding of the binary float is not modelled.
\<close>

fun decimal_digits :: "nat \<Rightarrow> string" where
  "decimal_digits n =
     (if n < 10 then [''0123456789'' ! n]
      else decimal_digits (n div 10) @ [''0123456789'' ! (n mod 10)])"

definition round_half_even :: "real \<Rightarrow> int" where
  "round_half_even x =
     (let f = \<lfloor>x\<rfloor>; d = x - of_int f
      in if d < 1 / 2 then f else if 1 / 2 < d then f + 1 else if even f then f else f + 1)"

definition format_multiple :: "real \<Rightarrow> string" where
  "format_multiple multiple =
     (let tenths = nat (round_half_even (\<bar>multiple\<bar> * 10))
      in (if multiple < 0 then ''-'' else []) @ decimal_digits (tenths div 10) @ ''.'' @
         decimal_digits (tenths mod 10) @ ''x'')"

fun exit_loop ::
  "lbo_analysis \<Rightarrow> real \<Rightarrow> real \<Rightarrow> int \<Rightarrow> real list
     \<Rightarrow> (string, exit_scenario) dict \<Rightarrow> error + (string, exit_scenario) dict" where
  "exit_loop s exit_ebitda total_remaining_debt exit_year [] results = Inr results"
| "exit_loop s exit_ebitda total_remaining_debt exit_year (multiple # rest) results =
     (case exit_entry s exit_ebitda total_remaining_debt exit_year multiple of
        Inl e \<Rightarrow> Inl e
      | Inr r \<Rightarrow>
          exit_loop s exit_ebitda total_remaining_debt exit_year rest
            (AList.update (format_multiple multiple) r results))"

definition default_exit_multiples :: "real list" where
  "default_exit_multiples = [8, 9, 10, 11, 12]"

definition default_exit_year :: int where
  "default_exit_year = 5"

definition exit_analysis ::
  "lbo_analysis \<Rightarrow> real list option \<Rightarrow> int
     \<Rightarrow> error + ((string, exit_scenario) dict option \<times> lbo_analysis)" where
  "exit_analysis s exit_multiples exit_year =
     (let multiples = (case exit_multiples of None \<Rightarrow> default_exit_multiples | Some ms \<Rightarrow> ms)
      in if operating_model s = [] \<or> debt_schedule s = [] then Inr (None, s)
         else case getitem (operating_model s) exit_year of
                Inl e \<Rightarrow> Inl e
              | Inr oy \<Rightarrow>
                 (case getitem (debt_schedule s) exit_year of
                    Inl e \<Rightarrow> Inl e
                  | Inr year_sched \<Rightarrow>
                     (let total_remaining_debt =
                            sum_list (map (\<lambda>(name, tranche). ending_balance tranche) year_sched)
                      in case exit_loop s (ebitda oy) total_remaining_debt exit_year
                                multiples [] of
                           Inl e \<Rightarrow> Inl e
                         | Inr results \<Rightarrow>
                             Inr (Some results, s\<lparr>returns_analysis := results\<rparr>))))"

definition sensitivity_entry ::
  "lbo_analysis \<Rightarrow> exit_scenario \<Rightarrow> real \<Rightarrow> real \<Rightarrow> error + sensitivity_cell" where
  \<comment> \<open>One cell of the sensitivity grid.\<close>
  "sensitivity_entry s base_case rev_adj eb_adj =
     (case getitem (operating_model s) 5 of
        Inl e \<Rightarrow> Inl e
      | Inr oy \<Rightarrow>
         (let adjusted_ebitda = ebitda oy * (1 + rev_adj) * (1 + eb_adj);
              ev = adjusted_ebitda * 10;
              debt = remaining_debt base_case;
              equity = max 0 (ev - debt)
          in case truediv equity (sponsor_equity s) of
               Inl e \<Rightarrow> Inl e
             | Inr m \<Rightarrow>
                 Inr \<lparr>revenue_adj = rev_adj, ebitda_adj = eb_adj,
                      sensitivity_cell.irr = (if m > 0 then m powr (1 / 5) - 1 else - 1),
                      sensitivity_cell.moic = m\<rparr>))"

fun ebitda_loop ::
  "lbo_analysis \<Rightarrow> exit_scenario \<Rightarrow> real \<Rightarrow> real list \<Rightarrow> sensitivity_cell list
     \<Rightarrow> error + sensitivity_cell list" where
  "ebitda_loop s base_case rev_adj [] grid = Inr grid"
| "ebitda_loop s base_case rev_adj (eb_adj # rest) grid =
     (case sensitivity_entry s base_case rev_adj eb_adj of
        Inl e \<Rightarrow> Inl e
      | Inr c \<Rightarrow> ebitda_loop s base_case rev_adj rest (grid @ [c]))"

fun revenue_loop ::
  "lbo_analysis \<Rightarrow> exit_scenario \<Rightarrow> real list \<Rightarrow> real list \<Rightarrow> sensitivity_cell list
     \<Rightarrow> error + sensitivity_cell list" where
  "revenue_loop s base_case [] ebitda_sensitivity grid = Inr grid"
| "revenue_loop s base_case (rev_adj # rest) ebitda_sensitivity grid =
     (case ebitda_loop s base_case rev_adj ebitda_sensitivity grid of
        Inl e \<Rightarrow> Inl e
      | Inr grid' \<Rightarrow> revenue_loop s base_case rest ebitda_sensitivity grid')"

definition default_revenue_sensitivity :: "real list" where
  "default_revenue_sensitivity = [- (1 / 10), 0, 1 / 10]"

definition default_ebitda_sensitivity :: "real list" where
  "default_ebitda_sensitivity = [- (2 / 100), 0, 2 / 100]"

definition sensitivity_analysis ::
  "lbo_analysis \<Rightarrow> real list \<Rightarrow> real list \<Rightarrow> error + sensitivity_cell list option" where
  \<comment> \<open>The method does not assign to \<^verbatim>\<open>self\<close>; the data frame is the list of its rows.\<close>
  "sensitivity_analysis s revenue_sensitivity ebitda_sensitivity =
     (if returns_analysis s = [] then Inr None
      else case getitem (returns_analysis s) ''10.0x'' of
             Inl e \<Rightarrow> Inl e
           | Inr base_case \<Rightarrow>
               (case revenue_loop s base_case revenue_sensitivity ebitda_sensitivity [] of
                  Inl e \<Rightarrow> Inl e
                | Inr grid \<Rightarrow> Inr (Some grid)))"

section \<open>Notions used in the statements\<close>

text \<open>
  The definitions of this section are not part of the program. They name what the
  statements below talk about: the entry of a schedule for a year and a tranche, the
  payments made out of the cash pool before a tranche's turn, the states on which the
  scheduler runs, and the run of the example of the source's \<^verbatim>\<open>__main__\<close> block.
\<close>

text \<open>The total payments recorded in one year's schedule for the tranches \<open>names\<close>.\<close>

definition paid :: "year_schedule \<Rightarrow> string list \<Rightarrow> real" where
  "paid ys names =
     sum_list (map (\<lambda>n. case map_of ys n of None \<Rightarrow> 0 | Some r \<Rightarrow> total_payment r) names)"

text \<open>\<^verbatim>\<open>schedule[year][tranche]\<close>, when both keys are present.\<close>

definition entry_at :: "(int, year_schedule) dict \<Rightarrow> int \<Rightarrow> string \<Rightarrow> tranche_year option" where
  "entry_at schedule year tranche =
     (case map_of schedule year of None \<Rightarrow> None | Some ys \<Rightarrow> map_of ys tranche)"

text \<open>
  One year's schedule \<open>ys\<close> for the tranches \<open>items\<close>: the \<open>i\<close>-th tranche has the record
  built from its opening balance and from the pool \<open>fcf\<close> less the total payments of the
  tranches before it, and no other key is present.
\<close>

definition year_entries ::
  "(string \<times> tranche) list \<Rightarrow> real \<Rightarrow> (string \<Rightarrow> real option) \<Rightarrow> year_schedule \<Rightarrow> bool" where
  "year_entries items fcf opening ys \<longleftrightarrow>
     (\<forall>i<length items. \<exists>bb.
        opening (fst (items ! i)) = Some bb \<and>
        map_of ys (fst (items ! i)) =
          Some (tranche_entry (fst (items ! i)) (snd (items ! i)) bb
                  (fcf - paid ys (take i (map fst items))))) \<and>
     (\<forall>n. n \<notin> fst ` set items \<longrightarrow> map_of ys n = None)"

text \<open>The ending balance recorded for a tranche in a year.\<close>

definition closing :: "(int, year_schedule) dict \<Rightarrow> int \<Rightarrow> string \<Rightarrow> real option" where
  "closing schedule year tranche = map_option ending_balance (entry_at schedule year tranche)"

text \<open>The balances at the start of the \<open>k\<close>-th year of \<open>yrs\<close>.\<close>

definition opening_of ::
  "(string \<Rightarrow> real option) \<Rightarrow> (int, year_schedule) dict \<Rightarrow> int list \<Rightarrow> nat \<Rightarrow> string \<Rightarrow> real option" where
  "opening_of start schedule yrs k =
     (if k = 0 then start else closing schedule (yrs ! (k - 1)))"

text \<open>
  The states on which \<^verbatim>\<open>model_debt_schedule\<close> runs: a debt structure is set (its keys are
  distinct, as the keys of a dict are) and the operating model has the five years.
\<close>

definition schedulable :: "lbo_analysis \<Rightarrow> bool" where
  "schedulable s \<longleftrightarrow>
     debt_structure s \<noteq> [] \<and> distinct (map fst (debt_structure s)) \<and>
     (\<forall>y\<in>set years. map_of (operating_model s) y \<noteq> None)"

text \<open>The total payments recorded in year \<open>year\<close> of a schedule for the tranches \<open>names\<close>.\<close>

definition paid_before :: "(int, year_schedule) dict \<Rightarrow> int \<Rightarrow> string list \<Rightarrow> real" where
  "paid_before schedule year names =
     sum_list (map (\<lambda>n. case entry_at schedule year n of None \<Rightarrow> 0 | Some r \<Rightarrow> total_payment r)
                 names)"

text \<open>The sum of the tranche principals and the principal-weighted average rate.\<close>

definition total_principal :: "(string, tranche) dict \<Rightarrow> real" where
  "total_principal ds = sum_list (map (\<lambda>(tranche, debt). amount debt) ds)"

definition weighted_average_rate :: "(string, tranche) dict \<Rightarrow> real" where
  "weighted_average_rate ds =
     sum_list (map (\<lambda>(tranche, debt). amount debt * rate debt) ds) / total_principal ds"

text \<open>
  The example of the source's \<^verbatim>\<open>__main__\<close> block: the deal with its debt structure, and
  the state after \<^verbatim>\<open>build_operating_model\<close>.
\<close>

definition demo_deal :: lbo_analysis where
  "demo_deal = snd (structure_debt (init ''TechCorp Industries'' 500 150) 100 200 25 25)"

definition demo_state :: lbo_analysis where
  "demo_state =
     (case build_operating_model demo_deal 200 [8 / 100, 7 / 100, 6 / 100, 5 / 100] (25 / 100)
             default_capex_rate default_nwc_rate default_tax_rate of
        Inl e \<Rightarrow> demo_deal
      | Inr (model, s) \<Rightarrow> s)"

text \<open>The multiples that \<^verbatim>\<open>exit_analysis\<close> evaluates for its argument.\<close>

definition exit_multiples_of :: "real list option \<Rightarrow> real list" where
  "exit_multiples_of exit_multiples =
     (case exit_multiples of None \<Rightarrow> default_exit_multiples | Some ms \<Rightarrow> ms)"

text \<open>The remaining debt: the sum of the ending balances of one year's schedule.\<close>

definition total_ending_balance :: "year_schedule \<Rightarrow> real" where
  "total_ending_balance ys = sum_list (map (\<lambda>(name, tranche). ending_balance tranche) ys)"

text \<open>The example after \<^verbatim>\<open>model_debt_schedule\<close>.\<close>

definition demo_scheduled :: lbo_analysis where
  "demo_scheduled =
     (case model_debt_schedule demo_state of
        Inr (Some sched, s) \<Rightarrow> s
      | _ \<Rightarrow> demo_state)"

text \<open>
  The row of the sensitivity grid as the specification words it: adjusted EBITDA =
  year-5 EBITDA * (1 + revenue adjustment) * (1 + EBITDA adjustment), enterprise value =
  adjusted EBITDA * 10, equity value = max 0 (enterprise value - remaining debt), moic =
  equity value / sponsor equity, irr = moic to the power 1/5, minus 1, when moic is
  positive, and -1 otherwise.
\<close>

definition expected_cell :: "real \<Rightarrow> real \<Rightarrow> real \<Rightarrow> real \<Rightarrow> real \<Rightarrow> sensitivity_cell" where
  "expected_cell ebitda5 debt equity rev_adj eb_adj =
     (let adjusted = ebitda5 * (1 + rev_adj) * (1 + eb_adj);
          ev = adjusted * 10;
          m = max 0 (ev - debt) / equity
      in \<lparr>revenue_adj = rev_adj, ebitda_adj = eb_adj,
          sensitivity_cell.irr = (if 0 < m then m powr (1 / 5) - 1 else - 1),
          sensitivity_cell.moic = m\<rparr>)"

text \<open>
  The sequence of calls of the source's \<^verbatim>\<open>__main__\<close> block up to \<^verbatim>\<open>exit_analysis\<close>, for a
  given sponsor equity; and the same run followed by a second \<^verbatim>\<open>exit_analysis\<close> with the
  single multiple 8.0.
\<close>

definition example_run :: "real \<Rightarrow> lbo_analysis" where
  "example_run equity =
     (let s0 = init ''TechCorp Industries'' 500 equity;
          s1 = snd (structure_debt s0 100 200 25 25);
          s2 = (case build_operating_model s1 200 [8 / 100, 7 / 100, 6 / 100, 5 / 100] (25 / 100)
                       default_capex_rate default_nwc_rate default_tax_rate of
                  Inr (model, s) \<Rightarrow> s | Inl e \<Rightarrow> s1);
          s3 = (case model_debt_schedule s2 of Inr (Some sched, s) \<Rightarrow> s | _ \<Rightarrow> s2)
      in case exit_analysis s3 None default_exit_year of
           Inr (Some results, s) \<Rightarrow> s | _ \<Rightarrow> s3)"


declare decimal_digits.simps [simp del]

section \<open>Dictionaries\<close>

lemma getitem_Some: "map_of d k = Some v \<Longrightarrow> getitem d k = Inr v"
  by (simp add: getitem_def)


section \<open>The loop over the tranches\<close>

lemma paid_Nil: "paid ys [] = 0"
  by (simp add: paid_def)

lemma paid_Cons: "map_of ys n = Some r \<Longrightarrow> paid ys (n # ns) = total_payment r + paid ys ns"
  by (simp add: paid_def)

lemma tranche_loop_entries:
  assumes "distinct (map fst items)"
    and "\<forall>n\<in>fst ` set items. map_of db n \<noteq> None"
  shows "\<exists>ys' rc' db'. tranche_loop items (ys, rc, db) = Inr (ys', rc', db') \<and>
           (\<forall>n. n \<notin> fst ` set items \<longrightarrow> map_of ys' n = map_of ys n \<and> map_of db' n = map_of db n) \<and>
           (\<forall>i<length items. \<exists>bb.
               map_of db (fst (items ! i)) = Some bb \<and>
               map_of ys' (fst (items ! i)) =
                 Some (tranche_entry (fst (items ! i)) (snd (items ! i)) bb
                         (rc - paid ys' (take i (map fst items)))) \<and>
               map_of db' (fst (items ! i)) =
                 Some (ending_balance (tranche_entry (fst (items ! i)) (snd (items ! i)) bb
                         (rc - paid ys' (take i (map fst items))))))"
  using assms
proof (induction items arbitrary: ys rc db)
  case Nil
  then show ?case by simp
next
  case (Cons x rest)
  obtain n t where x: "x = (n, t)" by (cases x)
  from Cons.prems(2) x obtain bb where bb: "map_of db n = Some bb" by auto
  define r where "r = tranche_entry n t bb rc"
  define ys1 where "ys1 = AList.update n r ys"
  define db1 where "db1 = AList.update n (ending_balance r) db"
  have n_notin: "n \<notin> fst ` set rest" and dist: "distinct (map fst rest)"
    using Cons.prems(1) x by auto
  have dom1: "\<forall>m\<in>fst ` set rest. map_of db1 m \<noteq> None"
    using Cons.prems(2) by (auto simp: db1_def update_conv')
  from Cons.IH [OF dist dom1, of ys1 "rc - total_payment r"]
  obtain ys' rc' db' where
    run: "tranche_loop rest (ys1, rc - total_payment r, db1) = Inr (ys', rc', db')"
    and same: "\<forall>m. m \<notin> fst ` set rest \<longrightarrow> map_of ys' m = map_of ys1 m \<and> map_of db' m = map_of db1 m"
    and ent: "\<forall>i<length rest. \<exists>bb.
               map_of db1 (fst (rest ! i)) = Some bb \<and>
               map_of ys' (fst (rest ! i)) =
                 Some (tranche_entry (fst (rest ! i)) (snd (rest ! i)) bb
                         (rc - total_payment r - paid ys' (take i (map fst rest)))) \<and>
               map_of db' (fst (rest ! i)) =
                 Some (ending_balance (tranche_entry (fst (rest ! i)) (snd (rest ! i)) bb
                         (rc - total_payment r - paid ys' (take i (map fst rest)))))"
    by blast
  have head_ys: "map_of ys' n = Some r"
    using same n_notin by (simp add: ys1_def update_conv')
  have head_db: "map_of db' n = Some (ending_balance r)"
    using same n_notin by (simp add: db1_def update_conv')
  have step: "tranche_loop (x # rest) (ys, rc, db) = Inr (ys', rc', db')"
    using run bb by (simp add: x getitem_Some r_def ys1_def db1_def Let_def)
  have unchanged: "\<forall>m. m \<notin> fst ` set (x # rest) \<longrightarrow>
      map_of ys' m = map_of ys m \<and> map_of db' m = map_of db m"
    using same by (auto simp: x ys1_def db1_def update_conv')
  have entries: "\<exists>bb.
               map_of db (fst ((x # rest) ! i)) = Some bb \<and>
               map_of ys' (fst ((x # rest) ! i)) =
                 Some (tranche_entry (fst ((x # rest) ! i)) (snd ((x # rest) ! i)) bb
                         (rc - paid ys' (take i (map fst (x # rest))))) \<and>
               map_of db' (fst ((x # rest) ! i)) =
                 Some (ending_balance (tranche_entry (fst ((x # rest) ! i)) (snd ((x # rest) ! i)) bb
                         (rc - paid ys' (take i (map fst (x # rest))))))"
    if "i < length (x # rest)" for i
  proof (cases i)
    case 0
    then show ?thesis
      using bb head_ys head_db by (simp add: x r_def paid_Nil)
  next
    case (Suc k)
    with that have k: "k < length rest" by simp
    from ent k obtain b where
      b1: "map_of db1 (fst (rest ! k)) = Some b"
      and b2: "map_of ys' (fst (rest ! k)) =
                 Some (tranche_entry (fst (rest ! k)) (snd (rest ! k)) b
                         (rc - total_payment r - paid ys' (take k (map fst rest))))"
      and b3: "map_of db' (fst (rest ! k)) =
                 Some (ending_balance (tranche_entry (fst (rest ! k)) (snd (rest ! k)) b
                         (rc - total_payment r - paid ys' (take k (map fst rest)))))"
      by blast
    have "fst (rest ! k) \<in> fst ` set rest" using k by simp
    with n_notin have ne: "fst (rest ! k) \<noteq> n" by auto
    with b1 have b0: "map_of db (fst (rest ! k)) = Some b"
      by (simp add: db1_def update_conv')
    have pd: "paid ys' (take i (map fst (x # rest))) =
          total_payment r + paid ys' (take k (map fst rest))"
      using head_ys by (simp add: Suc x paid_Cons)
    have cash: "rc - paid ys' (take i (map fst (x # rest))) =
          rc - total_payment r - paid ys' (take k (map fst rest))"
      using pd by simp
    show ?thesis
      unfolding cash using b0 b2 b3 by (simp add: Suc)
  qed
  from step unchanged entries show ?case by blast
qed


section \<open>The loop over the years\<close>

lemma year_entries_cong:
  assumes "year_entries items fcf op1 ys"
    and "\<forall>n\<in>fst ` set items. op1 n = op2 n"
  shows "year_entries items fcf op2 ys"
  unfolding year_entries_def
proof (intro conjI allI impI)
  fix n assume "n \<notin> fst ` set items"
  with assms(1) show "map_of ys n = None"
    unfolding year_entries_def by blast
next
  fix i assume i: "i < length items"
  then have "fst (items ! i) \<in> fst ` set items" by simp
  with assms(2) have "op1 (fst (items ! i)) = op2 (fst (items ! i))" by blast
  with assms(1) i show "\<exists>bb. op2 (fst (items ! i)) = Some bb \<and>
        map_of ys (fst (items ! i)) =
          Some (tranche_entry (fst (items ! i)) (snd (items ! i)) bb
                  (fcf - paid ys (take i (map fst items))))"
    unfolding year_entries_def by metis
qed

lemma tranche_loop_year:
  assumes "distinct (map fst items)"
    and "\<forall>n\<in>fst ` set items. map_of db n \<noteq> None"
  shows "\<exists>ys' rc' db'. tranche_loop items ([], rc, db) = Inr (ys', rc', db') \<and>
           year_entries items rc (map_of db) ys' \<and>
           (\<forall>n\<in>fst ` set items. map_of db' n \<noteq> None \<and>
                map_of db' n = map_option ending_balance (map_of ys' n))"
proof -
  from tranche_loop_entries [OF assms, of "[]" rc]
  obtain ys' rc' db' where
    run: "tranche_loop items ([], rc, db) = Inr (ys', rc', db')"
    and same: "\<forall>n. n \<notin> fst ` set items \<longrightarrow> map_of ys' n = map_of [] n \<and> map_of db' n = map_of db n"
    and ent: "\<forall>i<length items. \<exists>bb.
               map_of db (fst (items ! i)) = Some bb \<and>
               map_of ys' (fst (items ! i)) =
                 Some (tranche_entry (fst (items ! i)) (snd (items ! i)) bb
                         (rc - paid ys' (take i (map fst items)))) \<and>
               map_of db' (fst (items ! i)) =
                 Some (ending_balance (tranche_entry (fst (items ! i)) (snd (items ! i)) bb
                         (rc - paid ys' (take i (map fst items)))))"
    by blast
  have absent: "\<forall>n. n \<notin> fst ` set items \<longrightarrow> map_of ys' n = None"
    using same by simp
  have ye: "year_entries items rc (map_of db) ys'"
    unfolding year_entries_def using ent absent by blast
  have cl: "map_of db' n \<noteq> None \<and> map_of db' n = map_option ending_balance (map_of ys' n)"
    if "n \<in> fst ` set items" for n
  proof -
    from that obtain i where i: "i < length items" and n: "n = fst (items ! i)"
      by (auto simp: in_set_conv_nth)
    from ent i obtain bb where
      "map_of ys' (fst (items ! i)) =
                 Some (tranche_entry (fst (items ! i)) (snd (items ! i)) bb
                         (rc - paid ys' (take i (map fst items))))"
      "map_of db' (fst (items ! i)) =
                 Some (ending_balance (tranche_entry (fst (items ! i)) (snd (items ! i)) bb
                         (rc - paid ys' (take i (map fst items)))))"
      by blast
    then show ?thesis by (simp add: n)
  qed
  from run ye cl show ?thesis by blast
qed

lemma year_loop_entries:
  assumes "distinct (map fst (debt_structure s))"
    and "distinct yrs"
    and "\<forall>y\<in>set yrs. map_of (operating_model s) y \<noteq> None"
    and "\<forall>n\<in>fst ` set (debt_structure s). map_of db n \<noteq> None"
  shows "\<exists>sch' db'. year_loop s yrs (sch, db) = Inr (sch', db') \<and>
           (\<forall>y. y \<notin> set yrs \<longrightarrow> map_of sch' y = map_of sch y) \<and>
           (\<forall>k<length yrs. \<exists>oy ys.
               map_of (operating_model s) (yrs ! k) = Some oy \<and>
               map_of sch' (yrs ! k) = Some ys \<and>
               year_entries (debt_structure s) (free_cash_flow oy)
                 (opening_of (map_of db) sch' yrs k) ys)"
  using assms(2-4)
proof (induction yrs arbitrary: sch db)
  case Nil
  then show ?case by simp
next
  case (Cons y rest)
  let ?items = "debt_structure s"
  from Cons.prems(2) obtain oy where oy: "map_of (operating_model s) y = Some oy" by auto
  from tranche_loop_year [OF assms(1) Cons.prems(3), of "free_cash_flow oy"]
  obtain ys1 rc1 db1 where
    run1: "tranche_loop ?items ([], free_cash_flow oy, db) = Inr (ys1, rc1, db1)"
    and ye1: "year_entries ?items (free_cash_flow oy) (map_of db) ys1"
    and cl1: "\<forall>n\<in>fst ` set ?items. map_of db1 n \<noteq> None \<and>
                map_of db1 n = map_option ending_balance (map_of ys1 n)"
    by blast
  have y_notin: "y \<notin> set rest" and dist: "distinct rest"
    using Cons.prems(1) by auto
  have om: "\<forall>y\<in>set rest. map_of (operating_model s) y \<noteq> None"
    using Cons.prems(2) by simp
  have dom1: "\<forall>n\<in>fst ` set ?items. map_of db1 n \<noteq> None"
    using cl1 by blast
  from Cons.IH [OF dist om dom1, of "AList.update y ys1 sch"]
  obtain sch' db' where
    run: "year_loop s rest (AList.update y ys1 sch, db1) = Inr (sch', db')"
    and same: "\<forall>z. z \<notin> set rest \<longrightarrow> map_of sch' z = map_of (AList.update y ys1 sch) z"
    and ent: "\<forall>k<length rest. \<exists>oy ys.
               map_of (operating_model s) (rest ! k) = Some oy \<and>
               map_of sch' (rest ! k) = Some ys \<and>
               year_entries ?items (free_cash_flow oy) (opening_of (map_of db1) sch' rest k) ys"
    by blast
  have head: "map_of sch' y = Some ys1"
    using same y_notin by (simp add: update_conv')
  have step: "year_loop s (y # rest) (sch, db) = Inr (sch', db')"
    using run run1 oy by (simp add: getitem_Some)
  have unchanged: "\<forall>z. z \<notin> set (y # rest) \<longrightarrow> map_of sch' z = map_of sch z"
    using same by (auto simp: update_conv')
  have entries: "\<exists>oy ys.
               map_of (operating_model s) ((y # rest) ! k) = Some oy \<and>
               map_of sch' ((y # rest) ! k) = Some ys \<and>
               year_entries ?items (free_cash_flow oy)
                 (opening_of (map_of db) sch' (y # rest) k) ys"
    if "k < length (y # rest)" for k
  proof (cases k)
    case 0
    then show ?thesis using oy head ye1 by (simp add: opening_of_def)
  next
    case (Suc j)
    with that have j: "j < length rest" by simp
    from ent j obtain oyj ysj where
      j1: "map_of (operating_model s) (rest ! j) = Some oyj"
      and j2: "map_of sch' (rest ! j) = Some ysj"
      and j3: "year_entries ?items (free_cash_flow oyj) (opening_of (map_of db1) sch' rest j) ysj"
      by blast
    have "\<forall>n\<in>fst ` set ?items.
        opening_of (map_of db1) sch' rest j n = opening_of (map_of db) sch' (y # rest) k n"
    proof (cases j)
      case 0
      then show ?thesis
        using cl1 head by (simp add: opening_of_def Suc closing_def entry_at_def)
    next
      case (Suc i)
      then show ?thesis
        by (simp add: opening_of_def \<open>k = Suc j\<close>)
    qed
    from year_entries_cong [OF j3 this] j1 j2 show ?thesis
      by (auto simp: Suc)
  qed
  from step unchanged entries show ?case by blast
qed

section \<open>The schedule\<close>

lemma initial_balances_fold:
  "distinct (map fst ds) \<Longrightarrow>
   map_of (fold (\<lambda>(tranche, terms). AList.update tranche (amount terms)) ds acc) n =
     (case map_of ds n of Some t \<Rightarrow> Some (amount t) | None \<Rightarrow> map_of acc n)"
proof (induction ds arbitrary: acc)
  case Nil
  then show ?case by simp
next
  case (Cons x rest)
  obtain m t where x: "x = (m, t)" by (cases x)
  from Cons.prems x have "map_of rest m = None" and "distinct (map fst rest)"
    by (auto simp: map_of_eq_None_iff)
  then show ?case
    using Cons.IH [of "AList.update m (amount t) acc"]
    by (auto simp: x update_conv' split: option.splits)
qed

lemma map_of_initial_balances:
  "distinct (map fst ds) \<Longrightarrow> map_of (initial_balances ds) n = map_option amount (map_of ds n)"
  by (simp add: initial_balances_def initial_balances_fold split: option.splits)


lemma paid_before_eq: "map_of schedule y = Some ys \<Longrightarrow> paid_before schedule y names = paid ys names"
  by (simp add: paid_before_def paid_def entry_at_def)

lemma year_index:
  assumes "y \<in> {1..5::int}"
  obtains k where "k < 5" and "years ! k = y" and "k = 0 \<longleftrightarrow> y = 1"
    and "0 < k \<longrightarrow> years ! (k - 1) = y - 1"
proof -
  from assms consider "y = 1" | "y = 2" | "y = 3" | "y = 4" | "y = 5"
    by (simp only: atLeastAtMost_iff) arith
  then show thesis
  proof cases
    case 1 then show ?thesis using that [of 0] by (simp add: years_def)
  next
    case 2 then show ?thesis using that [of 1] by (simp add: years_def)
  next
    case 3 then show ?thesis using that [of 2] by (simp add: years_def)
  next
    case 4 then show ?thesis using that [of 3] by (simp add: years_def)
  next
    case 5 then show ?thesis using that [of 4] by (simp add: years_def)
  qed
qed

lemma schedule_years:
  assumes "schedulable s"
  shows "\<exists>sched. model_debt_schedule s = Inr (Some sched, s\<lparr>debt_schedule := sched\<rparr>) \<and>
           (\<forall>y. y \<notin> set years \<longrightarrow> map_of sched y = None) \<and>
           (\<forall>y\<in>{1..5}. \<exists>oy ys.
               map_of (operating_model s) y = Some oy \<and>
               map_of sched y = Some ys \<and>
               year_entries (debt_structure s) (free_cash_flow oy)
                 (if y = 1 then (\<lambda>n. map_option amount (map_of (debt_structure s) n))
                  else closing sched (y - 1)) ys)"
proof -
  let ?ds = "debt_structure s"
  let ?start = "\<lambda>n. map_option amount (map_of ?ds n)"
  from assms have ne: "?ds \<noteq> []" and dist: "distinct (map fst ?ds)"
    and om: "\<forall>y\<in>set years. map_of (operating_model s) y \<noteq> None"
    by (simp_all add: schedulable_def)
  have start: "map_of (initial_balances ?ds) = ?start"
    using dist by (simp add: fun_eq_iff map_of_initial_balances)
  have dom0: "\<forall>n\<in>fst ` set ?ds. map_of (initial_balances ?ds) n \<noteq> None"
    by (simp add: start map_of_eq_None_iff)
  have dy: "distinct years" by (simp add: years_def)
  from year_loop_entries [OF dist dy om dom0, of "[]"]
  obtain sched db' where
    run: "year_loop s years ([], initial_balances ?ds) = Inr (sched, db')"
    and absent: "\<forall>y. y \<notin> set years \<longrightarrow> map_of sched y = map_of [] y"
    and ent: "\<forall>k<length years. \<exists>oy ys.
               map_of (operating_model s) (years ! k) = Some oy \<and>
               map_of sched (years ! k) = Some ys \<and>
               year_entries ?ds (free_cash_flow oy) (opening_of ?start sched years k) ys"
    unfolding start by blast
  from om have "map_of (operating_model s) 1 \<noteq> None" by (simp add: years_def)
  then have "operating_model s \<noteq> []" by auto
  with ne run have res: "model_debt_schedule s = Inr (Some sched, s\<lparr>debt_schedule := sched\<rparr>)"
    by (simp add: model_debt_schedule_def)
  have per_year: "\<exists>oy ys.
               map_of (operating_model s) y = Some oy \<and>
               map_of sched y = Some ys \<and>
               year_entries ?ds (free_cash_flow oy)
                 (if y = 1 then ?start else closing sched (y - 1)) ys"
    if "y \<in> {1..5}" for y
  proof -
    from that obtain k where k: "k < 5" "years ! k = y" "k = 0 \<longleftrightarrow> y = 1"
      "0 < k \<longrightarrow> years ! (k - 1) = y - 1"
      by (rule year_index)
    from k(1) have "k < length years" by (simp add: years_def)
    with ent obtain oy ys where
      "map_of (operating_model s) (years ! k) = Some oy"
      "map_of sched (years ! k) = Some ys"
      "year_entries ?ds (free_cash_flow oy) (opening_of ?start sched years k) ys"
      by blast
    moreover have "opening_of ?start sched years k =
        (if y = 1 then ?start else closing sched (y - 1))"
      using k(3,4) by (auto simp: opening_of_def)
    ultimately show ?thesis using k(2) by auto
  qed
  from res absent per_year show ?thesis by auto
qed

lemma schedule_years_of:
  assumes "schedulable s"
    and "model_debt_schedule s = Inr (Some sched, s')"
  shows "\<forall>y. y \<notin> set years \<longrightarrow> map_of sched y = None"
    and "\<forall>y\<in>{1..5}. \<exists>oy ys.
               map_of (operating_model s) y = Some oy \<and>
               map_of sched y = Some ys \<and>
               year_entries (debt_structure s) (free_cash_flow oy)
                 (if y = 1 then (\<lambda>n. map_option amount (map_of (debt_structure s) n))
                  else closing sched (y - 1)) ys"
proof -
  from schedule_years [OF assms(1)] obtain sched0 where
    r0: "model_debt_schedule s = Inr (Some sched0, s\<lparr>debt_schedule := sched0\<rparr>)"
    and a0: "\<forall>y. y \<notin> set years \<longrightarrow> map_of sched0 y = None"
    and p0: "\<forall>y\<in>{1..5}. \<exists>oy ys.
               map_of (operating_model s) y = Some oy \<and>
               map_of sched0 y = Some ys \<and>
               year_entries (debt_structure s) (free_cash_flow oy)
                 (if y = 1 then (\<lambda>n. map_option amount (map_of (debt_structure s) n))
                  else closing sched0 (y - 1)) ys"
    by blast
  from r0 assms(2) have eq: "sched0 = sched" by simp
  from a0 show "\<forall>y. y \<notin> set years \<longrightarrow> map_of sched y = None"
    unfolding eq .
  from p0 show "\<forall>y\<in>{1..5}. \<exists>oy ys.
               map_of (operating_model s) y = Some oy \<and>
               map_of sched y = Some ys \<and>
               year_entries (debt_structure s) (free_cash_flow oy)
                 (if y = 1 then (\<lambda>n. map_option amount (map_of (debt_structure s) n))
                  else closing sched (y - 1)) ys"
    unfolding eq .
qed

lemma entry_shape:
  assumes "schedulable s"
    and "model_debt_schedule s = Inr (Some sched, s')"
    and "y \<in> {1..5}"
    and "i < length (debt_structure s)"
  shows "\<exists>oy bb.
           map_of (operating_model s) y = Some oy \<and>
           entry_at sched y (fst (debt_structure s ! i)) =
             Some (tranche_entry (fst (debt_structure s ! i)) (snd (debt_structure s ! i)) bb
                     (free_cash_flow oy -
                      paid_before sched y (take i (map fst (debt_structure s))))) \<and>
           (y = 1 \<longrightarrow> bb = amount (snd (debt_structure s ! i))) \<and>
           (y \<noteq> 1 \<longrightarrow> (\<exists>r. entry_at sched (y - 1) (fst (debt_structure s ! i)) = Some r \<and>
                              ending_balance r = bb))"
proof -
  let ?ds = "debt_structure s"
  let ?n = "fst (?ds ! i)"
  let ?opening = "if y = 1 then (\<lambda>n. map_option amount (map_of ?ds n))
                  else closing sched (y - 1)"
  from bspec [OF schedule_years_of(2) [OF assms(1,2)] assms(3)]
  obtain oy ys where
    oy: "map_of (operating_model s) y = Some oy"
    and ys: "map_of sched y = Some ys"
    and ye: "year_entries ?ds (free_cash_flow oy) ?opening ys"
    by (elim exE conjE)
  from ye have "\<forall>i<length ?ds. \<exists>bb.
        ?opening (fst (?ds ! i)) = Some bb \<and>
        map_of ys (fst (?ds ! i)) =
          Some (tranche_entry (fst (?ds ! i)) (snd (?ds ! i)) bb
                  (free_cash_flow oy - paid ys (take i (map fst ?ds))))"
    unfolding year_entries_def by (rule conjunct1)
  with assms(4) obtain bb where
    op: "?opening ?n = Some bb"
    and en: "map_of ys ?n =
          Some (tranche_entry ?n (snd (?ds ! i)) bb
                  (free_cash_flow oy - paid ys (take i (map fst ?ds))))"
    by blast
  from assms(1) have dist: "distinct (map fst ?ds)" by (simp add: schedulable_def)
  have "(?n, snd (?ds ! i)) \<in> set ?ds" using assms(4) by simp
  with dist have lk: "map_of ?ds ?n = Some (snd (?ds ! i))"
    by (rule map_of_is_SomeI)
  have e1: "entry_at sched y ?n =
             Some (tranche_entry ?n (snd (?ds ! i)) bb
                     (free_cash_flow oy - paid_before sched y (take i (map fst ?ds))))"
    using en ys by (simp add: entry_at_def paid_before_eq)
  have e2: "y = 1 \<longrightarrow> bb = amount (snd (?ds ! i))"
  proof
    assume "y = 1"
    with op have "map_option amount (map_of ?ds ?n) = Some bb" by simp
    with lk show "bb = amount (snd (?ds ! i))" by simp
  qed
  have e3: "y \<noteq> 1 \<longrightarrow> (\<exists>r. entry_at sched (y - 1) ?n = Some r \<and> ending_balance r = bb)"
  proof
    assume "y \<noteq> 1"
    with op have "closing sched (y - 1) ?n = Some bb" by simp
    then show "\<exists>r. entry_at sched (y - 1) ?n = Some r \<and> ending_balance r = bb"
      by (auto simp: closing_def)
  qed
  from oy e1 e2 e3 show ?thesis by blast
qed

lemma entries_only:
  assumes "schedulable s"
    and "model_debt_schedule s = Inr (Some sched, s')"
    and "entry_at sched y n = Some r"
  shows "y \<in> {1..5} \<and> (\<exists>i<length (debt_structure s). fst (debt_structure s ! i) = n)"
proof -
  let ?ds = "debt_structure s"
  let ?opening = "if y = 1 then (\<lambda>n. map_option amount (map_of ?ds n))
                  else closing sched (y - 1)"
  note absent = schedule_years_of(1) [OF assms(1,2)]
  note per = schedule_years_of(2) [OF assms(1,2)]
  from assms(3) have "map_of sched y \<noteq> None"
    by (auto simp: entry_at_def split: option.splits)
  moreover from absent have "y \<notin> set years \<longrightarrow> map_of sched y = None" ..
  ultimately have "y \<in> set years" by (cases "y \<in> set years") simp_all
  then have y: "y \<in> {1..5}" by (auto simp: years_def)
  from bspec [OF per y] obtain oy ys where
    oy: "map_of (operating_model s) y = Some oy"
    and ys: "map_of sched y = Some ys"
    and ye: "year_entries ?ds (free_cash_flow oy) ?opening ys"
    by (elim exE conjE)
  from assms(3) ys have yn: "map_of ys n \<noteq> None" by (simp add: entry_at_def)
  from ye have "\<forall>n. n \<notin> fst ` set ?ds \<longrightarrow> map_of ys n = None"
    unfolding year_entries_def by (rule conjunct2)
  then have "n \<notin> fst ` set ?ds \<longrightarrow> map_of ys n = None" ..
  with yn have "n \<in> fst ` set ?ds" by (cases "n \<in> fst ` set ?ds") simp_all
  then obtain t where "(n, t) \<in> set ?ds" by auto
  then obtain i where "i < length ?ds" and "?ds ! i = (n, t)"
    by (auto simp: in_set_conv_nth)
  then have "i < length ?ds \<and> fst (?ds ! i) = n" by simp
  then have "\<exists>i<length ?ds. fst (?ds ! i) = n" ..
  with y show ?thesis by simp
qed


lemma tranche_entry_fields:
  "beginning_balance (tranche_entry n t bb cash) = bb"
  "mandatory_payment (tranche_entry n t bb cash) = min (bb * amortization t) bb"
  "optional_payment (tranche_entry n t bb cash) =
     (if cash > min (bb * amortization t) bb \<and> n = ''Term Loan B''
      then min (cash - min (bb * amortization t) bb) (bb - min (bb * amortization t) bb)
      else 0)"
  "total_payment (tranche_entry n t bb cash) =
     mandatory_payment (tranche_entry n t bb cash) + optional_payment (tranche_entry n t bb cash)"
  "interest_payment (tranche_entry n t bb cash) = bb * rate t"
  "ending_balance (tranche_entry n t bb cash) =
     max 0 (bb - total_payment (tranche_entry n t bb cash))"
  by (simp_all add: tranche_entry_def Let_def)

lemma entry_is_tranche_entry:
  assumes "schedulable s"
    and "model_debt_schedule s = Inr (Some sched, s')"
    and "entry_at sched y n = Some r"
  shows "\<exists>t bb cash. (n, t) \<in> set (debt_structure s) \<and> r = tranche_entry n t bb cash"
proof -
  let ?ds = "debt_structure s"
  from entries_only [OF assms] obtain i where y: "y \<in> {1..5}"
    and i: "i < length ?ds" and n: "fst (?ds ! i) = n"
    by blast
  from entry_shape [OF assms(1,2) y i] obtain oy bb where
    "map_of (operating_model s) y = Some oy"
    and "entry_at sched y (fst (?ds ! i)) =
       Some (tranche_entry (fst (?ds ! i)) (snd (?ds ! i)) bb
               (free_cash_flow oy - paid_before sched y (take i (map fst ?ds))))"
    and "y = 1 \<longrightarrow> bb = amount (snd (?ds ! i))"
    and "y \<noteq> 1 \<longrightarrow> (\<exists>r. entry_at sched (y - 1) (fst (?ds ! i)) = Some r \<and>
                              ending_balance r = bb)"
    by (elim exE conjE)
  from this(2) assms(3) n have r: "r = tranche_entry n (snd (?ds ! i)) bb
               (free_cash_flow oy - paid_before sched y (take i (map fst ?ds)))"
    by simp
  from i n have "(n, snd (?ds ! i)) \<in> set ?ds"
    by (metis nth_mem prod.collapse)
  with r show ?thesis by blast
qed

lemma entry_present:
  assumes "schedulable s"
    and "model_debt_schedule s = Inr (Some sched, s')"
    and "y \<in> {1..5}"
    and "n \<in> fst ` set (debt_structure s)"
  shows "\<exists>r. entry_at sched y n = Some r"
proof -
  let ?ds = "debt_structure s"
  from assms(4) obtain t where "(n, t) \<in> set ?ds" by auto
  then obtain i where i: "i < length ?ds" and n: "?ds ! i = (n, t)"
    by (auto simp: in_set_conv_nth)
  from entry_shape [OF assms(1,2,3) i] obtain oy bb where
    "map_of (operating_model s) y = Some oy"
    and "entry_at sched y (fst (?ds ! i)) =
       Some (tranche_entry (fst (?ds ! i)) (snd (?ds ! i)) bb
               (free_cash_flow oy - paid_before sched y (take i (map fst ?ds))))"
    and "y = 1 \<longrightarrow> bb = amount (snd (?ds ! i))"
    and "y \<noteq> 1 \<longrightarrow> (\<exists>r. entry_at sched (y - 1) (fst (?ds ! i)) = Some r \<and>
                              ending_balance r = bb)"
    by (elim exE conjE)
  from this(2) n show ?thesis by simp
qed

section \<open>The loop of the operating projection\<close>

lemma interest_for_year_value:
  "interest_for_year s year =
     Inr (if debt_structure s = [] then 0
          else if 0 < total_principal (debt_structure s)
               then total_principal (debt_structure s) *
                    weighted_average_rate (debt_structure s) * (9 / 10) powi (year - 1)
               else 0)"
  by (simp add: interest_for_year_def truediv_def Let_def total_principal_def
      weighted_average_rate_def)

lemma growth_lookup:
  assumes "rg \<noteq> []" and "1 \<le> i"
  shows "\<exists>g. (if int i - 1 < int (length rg) then list_getitem rg (int i - 1)
              else list_getitem rg (- 1)) = Inr g"
proof -
  from assms(1) have len: "1 \<le> int (length rg)"
    by (cases rg) simp_all
  from assms(2) have i: "0 \<le> int i - 1" by simp
  show ?thesis
  proof (cases "int i - 1 < int (length rg)")
    case True
    with i show ?thesis by (simp add: list_getitem_def)
  next
    case False
    with len show ?thesis by (simp add: list_getitem_def)
  qed
qed

lemma operating_entry_first:
  "\<exists>oy. operating_entry s b rg m c n t model i 1 = Inr oy \<and>
        interest_for_year s 1 = Inr (interest_expense oy)"
  by (simp add: operating_entry_def interest_for_year_value Let_def)

lemma operating_entry_next:
  assumes "year \<noteq> 1" and "rg \<noteq> []" and "1 \<le> i" and "map_of model (year - 1) = Some prev"
  shows "\<exists>oy. operating_entry s b rg m c n t model i year = Inr oy \<and>
        interest_for_year s year = Inr (interest_expense oy)"
proof -
  from growth_lookup [OF assms(2,3)] obtain g where
    g: "(if int i - 1 < int (length rg) then list_getitem rg (int i - 1)
              else list_getitem rg (- 1)) = Inr g"
    by blast
  show ?thesis
    unfolding operating_entry_def g
    using assms(1,4) by (simp add: getitem_Some interest_for_year_value Let_def)
qed

lemma enumerate_years: "List.enumerate 0 years = [(0, 1), (1, 2), (2, 3), (3, 4), (4, 5)]"
  by (simp add: years_def enumerate_eq_zip upt_rec)

lemma build_operating_model_ok:
  assumes "rg \<noteq> []"
  shows "\<exists>oy1 oy2 oy3 oy4 oy5.
           build_operating_model s b rg m c n t =
             Inr ([(1, oy1), (2, oy2), (3, oy3), (4, oy4), (5, oy5)],
                  s\<lparr>operating_model := [(1, oy1), (2, oy2), (3, oy3), (4, oy4), (5, oy5)]\<rparr>) \<and>
           interest_for_year s 1 = Inr (interest_expense oy1) \<and>
           interest_for_year s 2 = Inr (interest_expense oy2) \<and>
           interest_for_year s 3 = Inr (interest_expense oy3) \<and>
           interest_for_year s 4 = Inr (interest_expense oy4) \<and>
           interest_for_year s 5 = Inr (interest_expense oy5)"
proof -
  from operating_entry_first [of s b rg m c n t "[]" 0] obtain oy1 where
    e1: "operating_entry s b rg m c n t [] 0 1 = Inr oy1"
    and i1: "interest_for_year s 1 = Inr (interest_expense oy1)"
    by blast
  let ?m1 = "[(1::int, oy1)]"
  from operating_entry_next [of 2 rg 1 ?m1 oy1 s b m c n t] assms obtain oy2 where
    e2: "operating_entry s b rg m c n t ?m1 1 2 = Inr oy2"
    and i2: "interest_for_year s 2 = Inr (interest_expense oy2)"
    by auto
  let ?m2 = "[(1::int, oy1), (2, oy2)]"
  from operating_entry_next [of 3 rg 2 ?m2 oy2 s b m c n t] assms obtain oy3 where
    e3: "operating_entry s b rg m c n t ?m2 2 3 = Inr oy3"
    and i3: "interest_for_year s 3 = Inr (interest_expense oy3)"
    by auto
  let ?m3 = "[(1::int, oy1), (2, oy2), (3, oy3)]"
  from operating_entry_next [of 4 rg 3 ?m3 oy3 s b m c n t] assms obtain oy4 where
    e4: "operating_entry s b rg m c n t ?m3 3 4 = Inr oy4"
    and i4: "interest_for_year s 4 = Inr (interest_expense oy4)"
    by auto
  let ?m4 = "[(1::int, oy1), (2, oy2), (3, oy3), (4, oy4)]"
  from operating_entry_next [of 5 rg 4 ?m4 oy4 s b m c n t] assms obtain oy5 where
    e5: "operating_entry s b rg m c n t ?m4 4 5 = Inr oy5"
    and i5: "interest_for_year s 5 = Inr (interest_expense oy5)"
    by auto
  have "build_operating_model s b rg m c n t =
             Inr ([(1, oy1), (2, oy2), (3, oy3), (4, oy4), (5, oy5)],
                  s\<lparr>operating_model := [(1, oy1), (2, oy2), (3, oy3), (4, oy4), (5, oy5)]\<rparr>)"
    using e2 by (simp add: build_operating_model_def enumerate_years e1 e3 e4 e5)
  with i1 i2 i3 i4 i5 show ?thesis by blast
qed


section \<open>The example run\<close>

lemma demo_state_shape:
  "\<exists>oy1 oy2 oy3 oy4 oy5.
     demo_state = demo_deal\<lparr>operating_model := [(1, oy1), (2, oy2), (3, oy3), (4, oy4), (5, oy5)]\<rparr>"
proof -
  have "[8 / 100, 7 / 100, 6 / 100, 5 / 100] \<noteq> ([] :: real list)" by simp
  from build_operating_model_ok [OF this, of demo_deal 200 "25 / 100" default_capex_rate
      default_nwc_rate default_tax_rate]
  show ?thesis
    unfolding demo_state_def by (elim exE conjE) (simp, blast)
qed

lemma demo_debt_structure:
  "debt_structure demo_state =
     [(''Term Loan A'',
         \<lparr>amount = 100, rate = 45 / 1000, term_years = 7,
          amortization = 15 / 100, seniority = 1\<rparr>),
      (''Term Loan B'',
         \<lparr>amount = 200, rate = 65 / 1000, term_years = 8,
          amortization = 1 / 100, seniority = 2\<rparr>),
      (''Revolver'',
         \<lparr>amount = 25, rate = 35 / 1000, term_years = 5,
          amortization = 0, seniority = 1\<rparr>),
      (''Subordinated Debt'',
         \<lparr>amount = 25, rate = 85 / 1000, term_years = 10,
          amortization = 0, seniority = 3\<rparr>)]"
proof -
  from demo_state_shape obtain oy1 oy2 oy3 oy4 oy5 where
    st: "demo_state =
      demo_deal\<lparr>operating_model := [(1, oy1), (2, oy2), (3, oy3), (4, oy4), (5, oy5)]\<rparr>"
    by blast
  show ?thesis
    unfolding st by (simp add: demo_deal_def structure_debt_def Let_def)
qed

lemma demo_structure:
  "map fst (debt_structure demo_state) =
     [''Term Loan A'', ''Term Loan B'', ''Revolver'', ''Subordinated Debt'']"
  unfolding demo_debt_structure by simp

lemma demo_schedulable: "schedulable demo_state"
proof -
  from demo_state_shape obtain oy1 oy2 oy3 oy4 oy5 where
    st: "demo_state =
      demo_deal\<lparr>operating_model := [(1, oy1), (2, oy2), (3, oy3), (4, oy4), (5, oy5)]\<rparr>"
    by blast
  have a: "debt_structure demo_state \<noteq> []"
    using demo_structure by auto
  have b: "distinct (map fst (debt_structure demo_state))"
    unfolding demo_structure by simp
  have c: "\<forall>y\<in>set years. map_of (operating_model demo_state) y \<noteq> None"
    by (simp add: st years_def)
  from a b c show ?thesis by (simp add: schedulable_def)
qed

section \<open>Bounds on balances and payments\<close>

text \<open>
  Claim C9. On a state with a debt structure and the five operating years,
  \<^verbatim>\<open>model_debt_schedule\<close> returns a schedule that has an entry for every year 1..5 and every
  tranche, and in every entry of the schedule the ending balance is at least 0 and the
  mandatory payment is at most the beginning balance.
\<close>

theorem ending_nonneg_mandatory_capped:
  assumes "schedulable s"
  shows "\<exists>sched. model_debt_schedule s = Inr (Some sched, s\<lparr>debt_schedule := sched\<rparr>) \<and>
           (\<forall>y\<in>{1..5}. \<forall>n\<in>fst ` set (debt_structure s). \<exists>r. entry_at sched y n = Some r) \<and>
           (\<forall>y n r. entry_at sched y n = Some r \<longrightarrow>
               0 \<le> ending_balance r \<and> mandatory_payment r \<le> beginning_balance r)"
proof -
  from schedule_years [OF assms] obtain sched where
    run: "model_debt_schedule s = Inr (Some sched, s\<lparr>debt_schedule := sched\<rparr>)"
    by blast
  have present: "\<forall>y\<in>{1..5}. \<forall>n\<in>fst ` set (debt_structure s). \<exists>r. entry_at sched y n = Some r"
    using entry_present [OF assms run] by blast
  have bounds: "0 \<le> ending_balance r \<and> mandatory_payment r \<le> beginning_balance r"
    if "entry_at sched y n = Some r" for y n r
  proof -
    from entry_is_tranche_entry [OF assms run that]
    obtain t bb cash where "r = tranche_entry n t bb cash" by blast
    then show ?thesis by (simp add: tranche_entry_fields)
  qed
  from run present bounds show ?thesis by blast
qed

theorem ending_nonneg_mandatory_capped_witness:
  "schedulable demo_state \<and>
   (\<exists>sched. model_debt_schedule demo_state = Inr (Some sched, demo_state\<lparr>debt_schedule := sched\<rparr>) \<and>
      (\<exists>r. entry_at sched 1 ''Term Loan A'' = Some r \<and>
           0 \<le> ending_balance r \<and> mandatory_payment r \<le> beginning_balance r))"
proof -
  from ending_nonneg_mandatory_capped [OF demo_schedulable] obtain sched where
    run: "model_debt_schedule demo_state = Inr (Some sched, demo_state\<lparr>debt_schedule := sched\<rparr>)"
    and present: "\<forall>y\<in>{1..5}. \<forall>n\<in>fst ` set (debt_structure demo_state).
        \<exists>r. entry_at sched y n = Some r"
    and bounds: "\<forall>y n r. entry_at sched y n = Some r \<longrightarrow>
               0 \<le> ending_balance r \<and> mandatory_payment r \<le> beginning_balance r"
    by (elim exE conjE)
  have "''Term Loan A'' \<in> set (map fst (debt_structure demo_state))"
    unfolding demo_structure by simp
  then have "''Term Loan A'' \<in> fst ` set (debt_structure demo_state)" by simp
  moreover have "(1::int) \<in> {1..5}" by simp
  ultimately obtain r where r: "entry_at sched 1 ''Term Loan A'' = Some r"
    using present by blast
  with bounds have "0 \<le> ending_balance r \<and> mandatory_payment r \<le> beginning_balance r"
    by blast
  with run r demo_schedulable show ?thesis by blast
qed

section \<open>Balance continuity\<close>

text \<open>
  Claim C1. On a state with a debt structure and the five operating years,
  \<^verbatim>\<open>model_debt_schedule\<close> returns a schedule in which, for every tranche of the structure,
  the beginning balance of year 1 is the tranche's principal amount and, for every year
  \<open>y\<close> in 1..4, the ending balance of year \<open>y\<close> is the beginning balance of year \<open>y + 1\<close>.
\<close>

theorem balance_continuity:
  assumes "schedulable s"
  shows "\<exists>sched. model_debt_schedule s = Inr (Some sched, s\<lparr>debt_schedule := sched\<rparr>) \<and>
           (\<forall>(n, t)\<in>set (debt_structure s).
              (\<exists>r. entry_at sched 1 n = Some r \<and> beginning_balance r = amount t) \<and>
              (\<forall>y\<in>{1..4}. \<exists>r r'.
                  entry_at sched y n = Some r \<and> entry_at sched (y + 1) n = Some r' \<and>
                  ending_balance r = beginning_balance r'))"
proof -
  let ?ds = "debt_structure s"
  from schedule_years [OF assms] obtain sched where
    run: "model_debt_schedule s = Inr (Some sched, s\<lparr>debt_schedule := sched\<rparr>)"
    by blast
  have first: "\<exists>r. entry_at sched 1 n = Some r \<and> beginning_balance r = amount t"
    if "(n, t) \<in> set ?ds" for n t
  proof -
    from that obtain i where i: "i < length ?ds" and nt: "?ds ! i = (n, t)"
      by (auto simp: in_set_conv_nth)
    have "(1::int) \<in> {1..5}" by simp
    from entry_shape [OF assms run this i] obtain oy bb where
      "map_of (operating_model s) 1 = Some oy"
      and e: "entry_at sched 1 (fst (?ds ! i)) =
         Some (tranche_entry (fst (?ds ! i)) (snd (?ds ! i)) bb
                 (free_cash_flow oy - paid_before sched 1 (take i (map fst ?ds))))"
      and b: "(1::int) = 1 \<longrightarrow> bb = amount (snd (?ds ! i))"
      and "(1::int) \<noteq> 1 \<longrightarrow> (\<exists>r. entry_at sched (1 - 1) (fst (?ds ! i)) = Some r \<and>
                              ending_balance r = bb)"
      by (elim exE conjE)
    from e b show ?thesis by (simp add: nt tranche_entry_fields)
  qed
  have chain: "\<exists>r r'. entry_at sched y n = Some r \<and> entry_at sched (y + 1) n = Some r' \<and>
                  ending_balance r = beginning_balance r'"
    if "(n, t) \<in> set ?ds" and "y \<in> {1..4}" for n t y
  proof -
    from that(1) obtain i where i: "i < length ?ds" and nt: "?ds ! i = (n, t)"
      by (auto simp: in_set_conv_nth)
    from that(2) have y1: "y + 1 \<in> {1..5}" and ne: "y + 1 \<noteq> 1" by simp_all
    from entry_shape [OF assms run y1 i] obtain oy bb where
      "map_of (operating_model s) (y + 1) = Some oy"
      and e: "entry_at sched (y + 1) (fst (?ds ! i)) =
         Some (tranche_entry (fst (?ds ! i)) (snd (?ds ! i)) bb
                 (free_cash_flow oy - paid_before sched (y + 1) (take i (map fst ?ds))))"
      and "y + 1 = 1 \<longrightarrow> bb = amount (snd (?ds ! i))"
      and p: "y + 1 \<noteq> 1 \<longrightarrow> (\<exists>r. entry_at sched (y + 1 - 1) (fst (?ds ! i)) = Some r \<and>
                              ending_balance r = bb)"
      by (elim exE conjE)
    from p ne obtain r where "entry_at sched y n = Some r" and "ending_balance r = bb"
      by (auto simp: nt)
    with e show ?thesis by (simp add: nt tranche_entry_fields)
  qed
  from run first chain show ?thesis by blast
qed

theorem balance_continuity_witness:
  "schedulable demo_state \<and>
   (\<exists>sched r1 r2.
      model_debt_schedule demo_state = Inr (Some sched, demo_state\<lparr>debt_schedule := sched\<rparr>) \<and>
      entry_at sched 1 ''Term Loan B'' = Some r1 \<and> beginning_balance r1 = 200 \<and>
      entry_at sched 2 ''Term Loan B'' = Some r2 \<and> ending_balance r1 = beginning_balance r2)"
proof -
  let ?tlb = "\<lparr>amount = 200, rate = 65 / 1000, term_years = 8,
             amortization = 1 / 100, seniority = 2\<rparr>"
  from balance_continuity [OF demo_schedulable] obtain sched where
    run: "model_debt_schedule demo_state = Inr (Some sched, demo_state\<lparr>debt_schedule := sched\<rparr>)"
    and all: "\<forall>(n, t)\<in>set (debt_structure demo_state).
              (\<exists>r. entry_at sched 1 n = Some r \<and> beginning_balance r = amount t) \<and>
              (\<forall>y\<in>{1..4}. \<exists>r r'.
                  entry_at sched y n = Some r \<and> entry_at sched (y + 1) n = Some r' \<and>
                  ending_balance r = beginning_balance r')"
    by (elim exE conjE)
  have mem: "(''Term Loan B'', ?tlb) \<in> set (debt_structure demo_state)"
    unfolding demo_debt_structure by simp
  from bspec [OF all mem] have
    f: "\<exists>r. entry_at sched 1 ''Term Loan B'' = Some r \<and> beginning_balance r = amount ?tlb"
    and c: "\<forall>y\<in>{1..4}. \<exists>r r'.
                  entry_at sched y ''Term Loan B'' = Some r \<and>
                  entry_at sched (y + 1) ''Term Loan B'' = Some r' \<and>
                  ending_balance r = beginning_balance r'"
    by simp_all
  from f obtain r1 where r1: "entry_at sched 1 ''Term Loan B'' = Some r1"
    "beginning_balance r1 = 200" by auto
  have "(1::int) \<in> {1..4}" by simp
  from bspec [OF c this] r1(1) obtain r2 where
    "entry_at sched 2 ''Term Loan B'' = Some r2" "ending_balance r1 = beginning_balance r2"
    by auto
  with run r1 demo_schedulable show ?thesis by blast
qed

section \<open>The cash sweep\<close>




section \<open>Mandatory amortization and the cash pool\<close>

text \<open>
  Claim C10. In the schedule returned by \<^verbatim>\<open>model_debt_schedule\<close>, for every year 1..5 and
  every tranche, the mandatory payment is \<open>min (beginning * amortization) beginning\<close>,
  whatever that year's free cash flow is: it is part of the total payment
  (\<open>total = mandatory + optional\<close> with \<open>optional \<ge> 0\<close>), and the record of a tranche
  other than \<^verbatim>\<open>Term Loan B\<close> is the same for every value of the cash pool. The pool is not
  clamped: a year that starts with no cash ends with a negative pool after a mandatory
  payment.
\<close>

theorem mandatory_payment_independent_of_cash:
  assumes "schedulable s"
  shows "\<exists>sched. model_debt_schedule s = Inr (Some sched, s\<lparr>debt_schedule := sched\<rparr>) \<and>
           (\<forall>y\<in>{1..5}. \<forall>(n, t)\<in>set (debt_structure s). \<exists>r.
              entry_at sched y n = Some r \<and>
              mandatory_payment r =
                min (beginning_balance r * amortization t) (beginning_balance r) \<and>
              total_payment r = mandatory_payment r + optional_payment r \<and>
              0 \<le> optional_payment r \<and>
              (n \<noteq> ''Term Loan B'' \<longrightarrow>
                 (\<forall>cash. r = tranche_entry n t (beginning_balance r) cash))) \<and>
           (\<exists>t ys cash' db'.
              tranche_loop [(''Term Loan A'', t)] ([], 0, [(''Term Loan A'', 100)]) =
                Inr (ys, cash', db') \<and> cash' < 0)"
proof -
  let ?ds = "debt_structure s"
  from schedule_years [OF assms] obtain sched where
    run: "model_debt_schedule s = Inr (Some sched, s\<lparr>debt_schedule := sched\<rparr>)"
    by blast
  have entry: "\<exists>r.
              entry_at sched y n = Some r \<and>
              mandatory_payment r =
                min (beginning_balance r * amortization t) (beginning_balance r) \<and>
              total_payment r = mandatory_payment r + optional_payment r \<and>
              0 \<le> optional_payment r \<and>
              (n \<noteq> ''Term Loan B'' \<longrightarrow>
                 (\<forall>cash. r = tranche_entry n t (beginning_balance r) cash))"
    if "y \<in> {1..5}" and "(n, t) \<in> set ?ds" for y n t
  proof -
    from that(2) obtain i where i: "i < length ?ds" and nt: "?ds ! i = (n, t)"
      by (auto simp: in_set_conv_nth)
    from entry_shape [OF assms run that(1) i] obtain oy bb where
      "map_of (operating_model s) y = Some oy"
      and e: "entry_at sched y (fst (?ds ! i)) =
         Some (tranche_entry (fst (?ds ! i)) (snd (?ds ! i)) bb
                 (free_cash_flow oy - paid_before sched y (take i (map fst ?ds))))"
      and "y = 1 \<longrightarrow> bb = amount (snd (?ds ! i))"
      and "y \<noteq> 1 \<longrightarrow> (\<exists>r. entry_at sched (y - 1) (fst (?ds ! i)) = Some r \<and>
                              ending_balance r = bb)"
      by (elim exE conjE)
    define pool where "pool = free_cash_flow oy - paid_before sched y (take i (map fst ?ds))"
    let ?r = "tranche_entry n t bb pool"
    from e have r: "entry_at sched y n = Some ?r" by (simp add: nt pool_def)
    have m: "mandatory_payment ?r = min (beginning_balance ?r * amortization t) (beginning_balance ?r)"
      by (simp add: tranche_entry_fields)
    have tp: "total_payment ?r = mandatory_payment ?r + optional_payment ?r"
      by (simp add: tranche_entry_fields)
    have nonneg: "0 \<le> optional_payment ?r"
      by (simp add: tranche_entry_fields)
    have same: "n \<noteq> ''Term Loan B'' \<longrightarrow>
        (\<forall>cash. ?r = tranche_entry n t (beginning_balance ?r) cash)"
      by (simp add: tranche_entry_def Let_def)
    from r m tp nonneg same show ?thesis by blast
  qed
  have "tranche_loop
          [(''Term Loan A'',
            \<lparr>amount = 100, rate = 45 / 1000, term_years = 7,
             amortization = 15 / 100, seniority = 1\<rparr>)]
          ([], 0, [(''Term Loan A'', 100)]) =
        Inr ([(''Term Loan A'',
                \<lparr>beginning_balance = 100, mandatory_payment = 15, optional_payment = 0,
                 total_payment = 15, interest_payment = 45 / 10, ending_balance = 85\<rparr>)],
             - 15, [(''Term Loan A'', 85)])"
    by (simp add: getitem_def tranche_entry_def Let_def)
  then have neg: "\<exists>t ys cash' db'.
              tranche_loop [(''Term Loan A'', t)] ([], 0, [(''Term Loan A'', 100)]) =
                Inr (ys, cash', db') \<and> cash' < 0"
    by (intro exI conjI) (assumption, simp)
  from run entry neg show ?thesis by blast
qed


theorem mandatory_payment_independent_of_cash_witness:
  "schedulable demo_state \<and>
   (\<exists>sched r.
      model_debt_schedule demo_state = Inr (Some sched, demo_state\<lparr>debt_schedule := sched\<rparr>) \<and>
      entry_at sched 3 ''Term Loan A'' = Some r \<and>
      mandatory_payment r = min (beginning_balance r * (15 / 100)) (beginning_balance r) \<and>
      total_payment r = mandatory_payment r + optional_payment r \<and>
      0 \<le> optional_payment r \<and>
      r = tranche_entry ''Term Loan A''
            \<lparr>amount = 100, rate = 45 / 1000, term_years = 7,
             amortization = 15 / 100, seniority = 1\<rparr> (beginning_balance r) 0)"
proof -
  let ?ds = "debt_structure demo_state"
  let ?tla = "\<lparr>amount = 100, rate = 45 / 1000, term_years = 7,
             amortization = 15 / 100, seniority = 1\<rparr>"
  from mandatory_payment_independent_of_cash [OF demo_schedulable] obtain sched where
    run: "model_debt_schedule demo_state = Inr (Some sched, demo_state\<lparr>debt_schedule := sched\<rparr>)"
    and all: "\<forall>y\<in>{1..5}. \<forall>(n, t)\<in>set ?ds. \<exists>r.
              entry_at sched y n = Some r \<and>
              mandatory_payment r =
                min (beginning_balance r * amortization t) (beginning_balance r) \<and>
              total_payment r = mandatory_payment r + optional_payment r \<and>
              0 \<le> optional_payment r \<and>
              (n \<noteq> ''Term Loan B'' \<longrightarrow>
                 (\<forall>cash. r = tranche_entry n t (beginning_balance r) cash))"
    by (elim exE conjE)
  have y: "(3::int) \<in> {1..5}" by simp
  have mem: "(''Term Loan A'', ?tla) \<in> set ?ds"
    unfolding demo_debt_structure by simp
  from bspec [OF bspec [OF all y] mem] obtain r where
    r: "entry_at sched 3 ''Term Loan A'' = Some r"
    and m: "mandatory_payment r = min (beginning_balance r * (15 / 100)) (beginning_balance r)"
    and t: "total_payment r = mandatory_payment r + optional_payment r"
    and o: "0 \<le> optional_payment r"
    and c: "\<forall>cash. r = tranche_entry ''Term Loan A'' ?tla (beginning_balance r) cash"
    by auto
  from c have "r = tranche_entry ''Term Loan A'' ?tla (beginning_balance r) 0" ..
  with run r m t o demo_schedulable show ?thesis by blast
qed

section \<open>Interest expense of the operating projection\<close>

lemma powi_year: "1 \<le> N \<Longrightarrow> (x::real) powi (N - 1) = x ^ nat (N - 1)"
  by (simp add: power_int_def)

text \<open>
  Claim C5. When a debt structure is set (and the growth rates are not empty, so that the
  projection is built), \<^verbatim>\<open>build_operating_model\<close> returns a model in which, for every year
  \<open>N\<close> in 1..5, the interest expense is the total principal times the principal-weighted
  average rate times \<open>0.9 ^ (N - 1)\<close> when the total principal is positive, and 0 when the
  total principal is zero (or negative): the division is not evaluated then.
\<close>

theorem interest_expense_weighted_decay:
  assumes "debt_structure s \<noteq> []" and "revenue_growth \<noteq> []"
  shows "\<exists>model.
           build_operating_model s base_revenue revenue_growth ebitda_margin capex_rate nwc_rate
               tax_rate = Inr (model, s\<lparr>operating_model := model\<rparr>) \<and>
           (\<forall>N\<in>{1..5}. \<exists>oy.
              map_of model N = Some oy \<and>
              (0 < total_principal (debt_structure s) \<longrightarrow>
                 interest_expense oy =
                   total_principal (debt_structure s) * weighted_average_rate (debt_structure s) *
                   (9 / 10) ^ nat (N - 1)) \<and>
              (total_principal (debt_structure s) \<le> 0 \<longrightarrow> interest_expense oy = 0))"
proof -
  let ?ds = "debt_structure s"
  let ?v = "\<lambda>N. if 0 < total_principal ?ds
                then total_principal ?ds * weighted_average_rate ?ds * (9 / 10) ^ nat (N - 1)
                else 0"
  have val: "interest_for_year s N = Inr (?v N)" if "1 \<le> N" for N
    using assms(1) that by (simp add: interest_for_year_value powi_year)
  from build_operating_model_ok [OF assms(2), of s base_revenue ebitda_margin capex_rate
      nwc_rate tax_rate]
  obtain oy1 oy2 oy3 oy4 oy5 where
    run: "build_operating_model s base_revenue revenue_growth ebitda_margin capex_rate nwc_rate
            tax_rate =
             Inr ([(1, oy1), (2, oy2), (3, oy3), (4, oy4), (5, oy5)],
                  s\<lparr>operating_model := [(1, oy1), (2, oy2), (3, oy3), (4, oy4), (5, oy5)]\<rparr>)"
    and i1: "interest_for_year s 1 = Inr (interest_expense oy1)"
    and i2: "interest_for_year s 2 = Inr (interest_expense oy2)"
    and i3: "interest_for_year s 3 = Inr (interest_expense oy3)"
    and i4: "interest_for_year s 4 = Inr (interest_expense oy4)"
    and i5: "interest_for_year s 5 = Inr (interest_expense oy5)"
    by (elim exE conjE)
  let ?model = "[(1::int, oy1), (2, oy2), (3, oy3), (4, oy4), (5, oy5)]"
  have v1: "interest_expense oy1 = ?v 1" using i1 val [of 1] by simp
  have v2: "interest_expense oy2 = ?v 2" using i2 val [of 2] by simp
  have v3: "interest_expense oy3 = ?v 3" using i3 val [of 3] by simp
  have v4: "interest_expense oy4 = ?v 4" using i4 val [of 4] by simp
  have v5: "interest_expense oy5 = ?v 5" using i5 val [of 5] by simp
  have each: "\<exists>oy. map_of ?model N = Some oy \<and> interest_expense oy = ?v N"
    if "N \<in> {1..5}" for N
  proof -
    from that consider "N = 1" | "N = 2" | "N = 3" | "N = 4" | "N = 5"
      by (simp only: atLeastAtMost_iff) arith
    then show ?thesis
    proof cases
      case 1 then show ?thesis using v1 by simp
    next
      case 2 then show ?thesis using v2 by simp
    next
      case 3 then show ?thesis using v3 by simp
    next
      case 4 then show ?thesis using v4 by simp
    next
      case 5 then show ?thesis using v5 by simp
    qed
  qed
  have "\<forall>N\<in>{1..5}. \<exists>oy.
              map_of ?model N = Some oy \<and>
              (0 < total_principal ?ds \<longrightarrow>
                 interest_expense oy =
                   total_principal ?ds * weighted_average_rate ?ds * (9 / 10) ^ nat (N - 1)) \<and>
              (total_principal ?ds \<le> 0 \<longrightarrow> interest_expense oy = 0)"
  proof
    fix N :: int assume "N \<in> {1..5}"
    from each [OF this] obtain oy where
      "map_of ?model N = Some oy" and "interest_expense oy = ?v N"
      by blast
    then show "\<exists>oy.
              map_of ?model N = Some oy \<and>
              (0 < total_principal ?ds \<longrightarrow>
                 interest_expense oy =
                   total_principal ?ds * weighted_average_rate ?ds * (9 / 10) ^ nat (N - 1)) \<and>
              (total_principal ?ds \<le> 0 \<longrightarrow> interest_expense oy = 0)"
      by auto
  qed
  with run show ?thesis by blast
qed


lemma demo_deal_structure:
  "debt_structure demo_deal =
     [(''Term Loan A'',
         \<lparr>amount = 100, rate = 45 / 1000, term_years = 7,
          amortization = 15 / 100, seniority = 1\<rparr>),
      (''Term Loan B'',
         \<lparr>amount = 200, rate = 65 / 1000, term_years = 8,
          amortization = 1 / 100, seniority = 2\<rparr>),
      (''Revolver'',
         \<lparr>amount = 25, rate = 35 / 1000, term_years = 5,
          amortization = 0, seniority = 1\<rparr>),
      (''Subordinated Debt'',
         \<lparr>amount = 25, rate = 85 / 1000, term_years = 10,
          amortization = 0, seniority = 3\<rparr>)]"
  by (simp add: demo_deal_def structure_debt_def Let_def)

theorem interest_expense_weighted_decay_witness:
  "debt_structure demo_deal \<noteq> [] \<and> [8 / 100, 7 / 100, 6 / 100, 5 / 100] \<noteq> ([] :: real list) \<and>
   (\<exists>model oy.
      build_operating_model demo_deal 200 [8 / 100, 7 / 100, 6 / 100, 5 / 100] (25 / 100)
          default_capex_rate default_nwc_rate default_tax_rate =
        Inr (model, demo_deal\<lparr>operating_model := model\<rparr>) \<and>
      map_of model 2 = Some oy \<and> interest_expense oy = 369 / 20)"
proof -
  have ne: "debt_structure demo_deal \<noteq> []"
    unfolding demo_deal_structure by simp
  have rg: "[8 / 100, 7 / 100, 6 / 100, 5 / 100] \<noteq> ([] :: real list)" by simp
  have tp: "total_principal (debt_structure demo_deal) = 350"
    unfolding demo_deal_structure by (simp add: total_principal_def)
  have wr: "weighted_average_rate (debt_structure demo_deal) = (41 / 2) / 350"
    unfolding weighted_average_rate_def tp
    unfolding demo_deal_structure by simp
  from interest_expense_weighted_decay [OF ne rg, of 200 "25 / 100" default_capex_rate
      default_nwc_rate default_tax_rate]
  obtain model where
    run: "build_operating_model demo_deal 200 [8 / 100, 7 / 100, 6 / 100, 5 / 100] (25 / 100)
          default_capex_rate default_nwc_rate default_tax_rate =
        Inr (model, demo_deal\<lparr>operating_model := model\<rparr>)"
    and all: "\<forall>N\<in>{1..5}. \<exists>oy.
              map_of model N = Some oy \<and>
              (0 < total_principal (debt_structure demo_deal) \<longrightarrow>
                 interest_expense oy =
                   total_principal (debt_structure demo_deal) *
                   weighted_average_rate (debt_structure demo_deal) *
                   (9 / 10) ^ nat (N - 1)) \<and>
              (total_principal (debt_structure demo_deal) \<le> 0 \<longrightarrow> interest_expense oy = 0)"
    by (elim exE conjE)
  have "(2::int) \<in> {1..5}" by simp
  from bspec [OF all this] obtain oy where
    oy: "map_of model 2 = Some oy"
    and v: "0 < total_principal (debt_structure demo_deal) \<longrightarrow>
                 interest_expense oy =
                   total_principal (debt_structure demo_deal) *
                   weighted_average_rate (debt_structure demo_deal) *
                   (9 / 10) ^ nat (2 - 1)"
    by blast
  from v have "interest_expense oy = 369 / 20"
    unfolding tp wr by simp
  with ne rg run oy show ?thesis by blast
qed

section \<open>Empty growth rates\<close>

text \<open>
  Claim C7. With an empty sequence of growth rates, \<^verbatim>\<open>build_operating_model\<close> fails (it
  always projects five years): year 1 is built, and for year 2 the lookup
  \<^verbatim>\<open>revenue_growth[-1]\<close> raises \<^verbatim>\<open>IndexError\<close>, whatever the other arguments are. No
  model is returned and the object is not changed.
\<close>

theorem empty_growth_rates_fail:
  "build_operating_model s base_revenue [] ebitda_margin capex_rate nwc_rate tax_rate =
     Inl IndexError"
proof -
  from operating_entry_first [of s base_revenue "[]" ebitda_margin capex_rate nwc_rate tax_rate
      "[]" 0]
  obtain oy1 where
    e1: "operating_entry s base_revenue [] ebitda_margin capex_rate nwc_rate tax_rate [] 0 1 =
           Inr oy1"
    by blast
  have e2: "operating_entry s base_revenue [] ebitda_margin capex_rate nwc_rate tax_rate
              [(1, oy1)] (Suc 0) 2 = Inl IndexError"
    by (simp add: operating_entry_def list_getitem_def)
  show ?thesis
    by (simp add: build_operating_model_def enumerate_years e1 e2)
qed

section \<open>Exit scenarios\<close>

lemma exit_entry_eq:
  assumes "exit_year \<noteq> 0"
  shows "exit_entry s exit_ebitda debt exit_year multiple =
     Inr \<lparr>exit_multiple = multiple,
          enterprise_value = exit_ebitda * multiple,
          remaining_debt = debt,
          equity_value = max 0 (exit_ebitda * multiple - debt),
          exit_scenario.moic =
            (if 0 < sponsor_equity s
             then max 0 (exit_ebitda * multiple - debt) / sponsor_equity s else 0),
          exit_scenario.irr =
            (if 0 < (if 0 < sponsor_equity s
                     then max 0 (exit_ebitda * multiple - debt) / sponsor_equity s else 0)
             then (if 0 < sponsor_equity s
                   then max 0 (exit_ebitda * multiple - debt) / sponsor_equity s else 0)
                  powr (1 / of_int exit_year) - 1
             else - 1)\<rparr>"
proof (cases "0 < sponsor_equity s")
  case True
  then have ne: "sponsor_equity s \<noteq> 0" by simp
  show ?thesis
  proof (cases "0 < max 0 (exit_ebitda * multiple - debt) / sponsor_equity s")
    case pos: True
    show ?thesis
      unfolding exit_entry_def truediv_def Let_def
      using True ne pos assms by (simp only: if_True if_False sum.case of_int_eq_0_iff)
  next
    case npos: False
    show ?thesis
      unfolding exit_entry_def truediv_def Let_def
      using True ne npos assms by (simp only: if_True if_False sum.case of_int_eq_0_iff)
  qed
next
  case False
  show ?thesis
    unfolding exit_entry_def truediv_def Let_def
    using False by (simp only: if_True if_False sum.case less_irrefl)
qed

lemma exit_entry_value:
  assumes "exit_year \<noteq> 0"
  shows "\<exists>r. exit_entry s exit_ebitda debt exit_year multiple = Inr r \<and>
           exit_multiple r = multiple \<and>
           enterprise_value r = exit_ebitda * multiple \<and>
           remaining_debt r = debt \<and>
           equity_value r = max 0 (enterprise_value r - remaining_debt r) \<and>
           (0 < sponsor_equity s \<longrightarrow> exit_scenario.moic r = equity_value r / sponsor_equity s) \<and>
           (sponsor_equity s \<le> 0 \<longrightarrow> exit_scenario.moic r = 0) \<and>
           (0 < exit_scenario.moic r \<longrightarrow>
              exit_scenario.irr r = exit_scenario.moic r powr (1 / of_int exit_year) - 1) \<and>
           (exit_scenario.moic r \<le> 0 \<longrightarrow> exit_scenario.irr r = - 1)"
proof -
  define M where "M =
    (if 0 < sponsor_equity s
     then max 0 (exit_ebitda * multiple - debt) / sponsor_equity s else 0)"
  define r where "r =
     \<lparr>exit_multiple = multiple,
      enterprise_value = exit_ebitda * multiple,
      remaining_debt = debt,
      equity_value = max 0 (exit_ebitda * multiple - debt),
      exit_scenario.moic = M,
      exit_scenario.irr = (if 0 < M then M powr (1 / of_int exit_year) - 1 else - 1)\<rparr>"
  have run: "exit_entry s exit_ebitda debt exit_year multiple = Inr r"
    unfolding exit_entry_eq [OF assms] r_def M_def ..
  have f1: "exit_multiple r = multiple"
    and f2: "enterprise_value r = exit_ebitda * multiple"
    and f3: "remaining_debt r = debt"
    and f4: "equity_value r = max 0 (enterprise_value r - remaining_debt r)"
    by (simp_all add: r_def)
  have f5: "0 < sponsor_equity s \<longrightarrow> exit_scenario.moic r = equity_value r / sponsor_equity s"
    by (simp add: r_def M_def)
  have f6: "sponsor_equity s \<le> 0 \<longrightarrow> exit_scenario.moic r = 0"
    by (simp add: r_def M_def)
  have f7: "0 < exit_scenario.moic r \<longrightarrow>
              exit_scenario.irr r = exit_scenario.moic r powr (1 / of_int exit_year) - 1"
    by (simp add: r_def)
  have f8: "exit_scenario.moic r \<le> 0 \<longrightarrow> exit_scenario.irr r = - 1"
    by (simp add: r_def)
  from run f1 f2 f3 f4 f5 f6 f7 f8 show ?thesis by blast
qed

lemma exit_loop_results:
  assumes "exit_year \<noteq> 0"
  shows "\<exists>results'. exit_loop s e d exit_year ms results = Inr results' \<and>
           (\<forall>k. (\<forall>m\<in>set ms. format_multiple m \<noteq> k) \<longrightarrow> map_of results' k = map_of results k) \<and>
           (\<forall>m\<in>set ms. \<exists>r m'. map_of results' (format_multiple m) = Some r \<and> m' \<in> set ms \<and>
                format_multiple m' = format_multiple m \<and> exit_entry s e d exit_year m' = Inr r)"
proof (induction ms arbitrary: results)
  case Nil
  then show ?case by simp
next
  case (Cons m rest)
  from exit_entry_value [OF assms, of s e d m] obtain r where
    r: "exit_entry s e d exit_year m = Inr r" by blast
  let ?res1 = "AList.update (format_multiple m) r results"
  from Cons.IH [of ?res1] obtain results' where
    run: "exit_loop s e d exit_year rest ?res1 = Inr results'"
    and same: "\<forall>k. (\<forall>m\<in>set rest. format_multiple m \<noteq> k) \<longrightarrow> map_of results' k = map_of ?res1 k"
    and ent: "\<forall>m\<in>set rest. \<exists>r m'. map_of results' (format_multiple m) = Some r \<and> m' \<in> set rest \<and>
                format_multiple m' = format_multiple m \<and> exit_entry s e d exit_year m' = Inr r"
    by blast
  have step: "exit_loop s e d exit_year (m # rest) results = Inr results'"
    using run r by simp
  have unchanged: "\<forall>k. (\<forall>m'\<in>set (m # rest). format_multiple m' \<noteq> k) \<longrightarrow>
      map_of results' k = map_of results k"
    using same by (auto simp: update_conv')
  have entries: "\<exists>r m'. map_of results' (format_multiple x) = Some r \<and> m' \<in> set (m # rest) \<and>
                format_multiple m' = format_multiple x \<and> exit_entry s e d exit_year m' = Inr r"
    if "x \<in> set (m # rest)" for x
  proof (cases "\<exists>z\<in>set rest. format_multiple z = format_multiple x")
    case True
    then obtain z where z: "z \<in> set rest" "format_multiple z = format_multiple x" by blast
    from bspec [OF ent z(1)] obtain r' m' where
      "map_of results' (format_multiple z) = Some r'" "m' \<in> set rest"
      "format_multiple m' = format_multiple z" "exit_entry s e d exit_year m' = Inr r'"
      by blast
    with z(2) show ?thesis by auto
  next
    case False
    with that have xm: "x = m" by auto
    from False have "\<forall>z\<in>set rest. format_multiple z \<noteq> format_multiple x" by blast
    with same have "map_of results' (format_multiple x) = map_of ?res1 (format_multiple x)"
      by blast
    then have "map_of results' (format_multiple x) = Some r"
      by (simp add: xm update_conv')
    with r xm show ?thesis by auto
  qed
  from step unchanged entries show ?case by blast
qed

lemma exit_loop_only:
  assumes "exit_year \<noteq> 0"
    and "exit_loop s e d exit_year ms [] = Inr results"
    and "map_of results k = Some r"
  shows "\<exists>m\<in>set ms. k = format_multiple m \<and> exit_entry s e d exit_year m = Inr r"
proof -
  from exit_loop_results [OF assms(1), of s e d ms "[]"] assms(2) have
    same: "\<forall>k. (\<forall>m\<in>set ms. format_multiple m \<noteq> k) \<longrightarrow> map_of results k = map_of [] k"
    and ent: "\<forall>m\<in>set ms. \<exists>r m'. map_of results (format_multiple m) = Some r \<and> m' \<in> set ms \<and>
                format_multiple m' = format_multiple m \<and> exit_entry s e d exit_year m' = Inr r"
    by auto
  from same assms(3) obtain m where m: "m \<in> set ms" "format_multiple m = k"
    by (cases "\<forall>m\<in>set ms. format_multiple m \<noteq> k") auto
  from bspec [OF ent m(1)] obtain r' m' where
    "map_of results (format_multiple m) = Some r'" and m': "m' \<in> set ms"
    and k': "format_multiple m' = format_multiple m" and e': "exit_entry s e d exit_year m' = Inr r'"
    by blast
  with assms(3) m(2) have "r' = r" by simp
  with e' k' m(2) have "k = format_multiple m' \<and> exit_entry s e d exit_year m' = Inr r"
    by simp
  with m' show ?thesis ..
qed


lemma exit_analysis_run:
  assumes "map_of (operating_model s) exit_year = Some oy"
    and "map_of (debt_schedule s) exit_year = Some year_sched"
    and "exit_loop s (ebitda oy) (total_ending_balance year_sched) exit_year
           (exit_multiples_of exit_multiples) [] = Inr results"
  shows "exit_analysis s exit_multiples exit_year =
           Inr (Some results, s\<lparr>returns_analysis := results\<rparr>)"
proof -
  from assms(1) have "operating_model s \<noteq> []" by auto
  moreover from assms(2) have "debt_schedule s \<noteq> []" by auto
  ultimately show ?thesis
    using assms
    by (simp add: exit_analysis_def getitem_Some Let_def exit_multiples_of_def
        total_ending_balance_def)
qed

text \<open>
  Claim C3. When the operating model and the debt schedule have the exit year (and the
  exit year is not 0), \<^verbatim>\<open>exit_analysis\<close> returns and stores a dict that has a scenario under
  the key of every multiple, and every scenario \<open>r\<close> of the dict is the one computed for
  one of the multiples: enterprise value = exit EBITDA * multiple; remaining debt = the
  sum of the ending balances of the exit year; equity value = max 0 (enterprise value -
  remaining debt); moic = equity value / sponsor equity when the sponsor equity is
  positive and 0 when it is zero (or negative); irr = moic to the power 1 / exit year,
  minus 1, when moic is positive and exactly -1 otherwise.
\<close>

theorem exit_scenario_values:
  assumes "map_of (operating_model s) exit_year = Some oy"
    and "map_of (debt_schedule s) exit_year = Some year_sched"
    and "exit_year \<noteq> 0"
  shows "\<exists>results.
           exit_analysis s exit_multiples exit_year =
             Inr (Some results, s\<lparr>returns_analysis := results\<rparr>) \<and>
           (\<forall>m\<in>set (exit_multiples_of exit_multiples).
              \<exists>r. map_of results (format_multiple m) = Some r) \<and>
           (\<forall>key r. map_of results key = Some r \<longrightarrow>
              exit_multiple r \<in> set (exit_multiples_of exit_multiples) \<and>
              key = format_multiple (exit_multiple r) \<and>
              enterprise_value r = ebitda oy * exit_multiple r \<and>
              remaining_debt r = total_ending_balance year_sched \<and>
              equity_value r = max 0 (enterprise_value r - remaining_debt r) \<and>
              (0 < sponsor_equity s \<longrightarrow>
                 exit_scenario.moic r = equity_value r / sponsor_equity s) \<and>
              (sponsor_equity s \<le> 0 \<longrightarrow> exit_scenario.moic r = 0) \<and>
              (0 < exit_scenario.moic r \<longrightarrow>
                 exit_scenario.irr r = exit_scenario.moic r powr (1 / of_int exit_year) - 1) \<and>
              (exit_scenario.moic r \<le> 0 \<longrightarrow> exit_scenario.irr r = - 1))"
proof -
  let ?ms = "exit_multiples_of exit_multiples"
  let ?e = "ebitda oy"
  let ?d = "total_ending_balance year_sched"
  from exit_loop_results [OF assms(3), of s ?e ?d ?ms "[]"] obtain results where
    loop: "exit_loop s ?e ?d exit_year ?ms [] = Inr results"
    and ent: "\<forall>m\<in>set ?ms. \<exists>r m'. map_of results (format_multiple m) = Some r \<and> m' \<in> set ?ms \<and>
                format_multiple m' = format_multiple m \<and> exit_entry s ?e ?d exit_year m' = Inr r"
    by blast
  note run = exit_analysis_run [OF assms(1,2) loop]
  have keys: "\<forall>m\<in>set ?ms. \<exists>r. map_of results (format_multiple m) = Some r"
    using ent by blast
  have vals: "exit_multiple r \<in> set ?ms \<and>
              key = format_multiple (exit_multiple r) \<and>
              enterprise_value r = ?e * exit_multiple r \<and>
              remaining_debt r = ?d \<and>
              equity_value r = max 0 (enterprise_value r - remaining_debt r) \<and>
              (0 < sponsor_equity s \<longrightarrow>
                 exit_scenario.moic r = equity_value r / sponsor_equity s) \<and>
              (sponsor_equity s \<le> 0 \<longrightarrow> exit_scenario.moic r = 0) \<and>
              (0 < exit_scenario.moic r \<longrightarrow>
                 exit_scenario.irr r = exit_scenario.moic r powr (1 / of_int exit_year) - 1) \<and>
              (exit_scenario.moic r \<le> 0 \<longrightarrow> exit_scenario.irr r = - 1)"
    if "map_of results key = Some r" for key r
  proof -
    from exit_loop_only [OF assms(3) loop that] obtain m where
      m: "m \<in> set ?ms" and k: "key = format_multiple m"
      and e: "exit_entry s ?e ?d exit_year m = Inr r"
      by blast
    from exit_entry_value [OF assms(3), of s ?e ?d m] e have
      "exit_multiple r = m \<and>
           enterprise_value r = ?e * m \<and>
           remaining_debt r = ?d \<and>
           equity_value r = max 0 (enterprise_value r - remaining_debt r) \<and>
           (0 < sponsor_equity s \<longrightarrow> exit_scenario.moic r = equity_value r / sponsor_equity s) \<and>
           (sponsor_equity s \<le> 0 \<longrightarrow> exit_scenario.moic r = 0) \<and>
           (0 < exit_scenario.moic r \<longrightarrow>
              exit_scenario.irr r = exit_scenario.moic r powr (1 / of_int exit_year) - 1) \<and>
           (exit_scenario.moic r \<le> 0 \<longrightarrow> exit_scenario.irr r = - 1)"
      by simp
    with m k show ?thesis by simp
  qed
  from run keys vals show ?thesis by blast
qed

lemma format_default_multiples:
  "format_multiple 8 = ''8.0x''" "format_multiple 9 = ''9.0x''"
  "format_multiple 10 = ''10.0x''" "format_multiple 11 = ''11.0x''"
  "format_multiple 12 = ''12.0x''"
  by (simp_all add: format_multiple_def round_half_even_def Let_def decimal_digits.simps)

lemma scheduled_state:
  assumes "schedulable s"
  shows "\<exists>sched ys. model_debt_schedule s = Inr (Some sched, s\<lparr>debt_schedule := sched\<rparr>) \<and>
           map_of sched 5 = Some ys"
proof -
  from schedule_years [OF assms] obtain sched where
    run: "model_debt_schedule s = Inr (Some sched, s\<lparr>debt_schedule := sched\<rparr>)"
    by blast
  have "(5::int) \<in> {1..5}" by simp
  from bspec [OF schedule_years_of(2) [OF assms run] this]
  obtain ys where "map_of sched 5 = Some ys" by blast
  with run show ?thesis by blast
qed

lemma demo_scheduled_shape:
  "\<exists>sched ys. demo_scheduled = demo_state\<lparr>debt_schedule := sched\<rparr> \<and> map_of sched 5 = Some ys"
proof -
  from scheduled_state [OF demo_schedulable] obtain sched ys where
    "model_debt_schedule demo_state = Inr (Some sched, demo_state\<lparr>debt_schedule := sched\<rparr>)"
    and "map_of sched 5 = Some ys"
    by blast
  then show ?thesis by (auto simp: demo_scheduled_def)
qed

lemma demo_state_year5: "\<exists>oy. map_of (operating_model demo_state) 5 = Some oy"
proof -
  from demo_state_shape obtain oy1 oy2 oy3 oy4 oy5 where
    st: "demo_state =
      demo_deal\<lparr>operating_model := [(1, oy1), (2, oy2), (3, oy3), (4, oy4), (5, oy5)]\<rparr>"
    by blast
  show ?thesis unfolding st by simp
qed

lemma demo_state_equity: "sponsor_equity demo_state = 150"
proof -
  from demo_state_shape obtain oy1 oy2 oy3 oy4 oy5 where
    st: "demo_state =
      demo_deal\<lparr>operating_model := [(1, oy1), (2, oy2), (3, oy3), (4, oy4), (5, oy5)]\<rparr>"
    by blast
  show ?thesis unfolding st by (simp add: demo_deal_def structure_debt_def init_def Let_def)
qed

theorem exit_scenario_values_witness:
  "\<exists>oy ys results r.
     map_of (operating_model demo_scheduled) 5 = Some oy \<and>
     map_of (debt_schedule demo_scheduled) 5 = Some ys \<and> (5::int) \<noteq> 0 \<and>
     exit_analysis demo_scheduled None 5 =
       Inr (Some results, demo_scheduled\<lparr>returns_analysis := results\<rparr>) \<and>
     map_of results ''10.0x'' = Some r \<and>
     enterprise_value r = ebitda oy * exit_multiple r \<and>
     remaining_debt r = total_ending_balance ys \<and>
     equity_value r = max 0 (enterprise_value r - remaining_debt r) \<and>
     exit_scenario.moic r = equity_value r / 150"
proof -
  from demo_scheduled_shape obtain sched ys where
    st: "demo_scheduled = demo_state\<lparr>debt_schedule := sched\<rparr>" and ys: "map_of sched 5 = Some ys"
    by blast
  from demo_state_year5 obtain oy where oy0: "map_of (operating_model demo_state) 5 = Some oy"
    by blast
  have oy: "map_of (operating_model demo_scheduled) 5 = Some oy" using oy0 by (simp add: st)
  have sc: "map_of (debt_schedule demo_scheduled) 5 = Some ys" using ys by (simp add: st)
  have eq: "sponsor_equity demo_scheduled = 150" by (simp add: st demo_state_equity)
  have ne: "(5::int) \<noteq> 0" by simp
  from exit_scenario_values [OF oy sc ne, of None] obtain results where
    run: "exit_analysis demo_scheduled None 5 =
       Inr (Some results, demo_scheduled\<lparr>returns_analysis := results\<rparr>)"
    and keys: "\<forall>m\<in>set (exit_multiples_of None). \<exists>r. map_of results (format_multiple m) = Some r"
    and vals: "\<forall>key r. map_of results key = Some r \<longrightarrow>
              exit_multiple r \<in> set (exit_multiples_of None) \<and>
              key = format_multiple (exit_multiple r) \<and>
              enterprise_value r = ebitda oy * exit_multiple r \<and>
              remaining_debt r = total_ending_balance ys \<and>
              equity_value r = max 0 (enterprise_value r - remaining_debt r) \<and>
              (0 < sponsor_equity demo_scheduled \<longrightarrow>
                 exit_scenario.moic r = equity_value r / sponsor_equity demo_scheduled) \<and>
              (sponsor_equity demo_scheduled \<le> 0 \<longrightarrow> exit_scenario.moic r = 0) \<and>
              (0 < exit_scenario.moic r \<longrightarrow>
                 exit_scenario.irr r = exit_scenario.moic r powr (1 / of_int 5) - 1) \<and>
              (exit_scenario.moic r \<le> 0 \<longrightarrow> exit_scenario.irr r = - 1)"
    by (elim exE conjE)
  have "(10::real) \<in> set (exit_multiples_of None)"
    by (simp add: exit_multiples_of_def default_exit_multiples_def)
  from bspec [OF keys this] obtain r where r: "map_of results ''10.0x'' = Some r"
    by (auto simp: format_default_multiples)
  from vals r have
    "enterprise_value r = ebitda oy * exit_multiple r \<and>
     remaining_debt r = total_ending_balance ys \<and>
     equity_value r = max 0 (enterprise_value r - remaining_debt r) \<and>
     exit_scenario.moic r = equity_value r / 150"
    unfolding eq by simp
  with oy sc ne run r show ?thesis by blast
qed

section \<open>Sensitivity sweep\<close>

lemma expected_cell_adj:
  "revenue_adj (expected_cell e d q ra ea) = ra"
  "ebitda_adj (expected_cell e d q ra ea) = ea"
  by (simp_all add: expected_cell_def Let_def)

lemma sensitivity_entry_eq:
  assumes "map_of (operating_model s) 5 = Some oy" and "sponsor_equity s \<noteq> 0"
  shows "sensitivity_entry s base ra ea =
           Inr (expected_cell (ebitda oy) (remaining_debt base) (sponsor_equity s) ra ea)"
  using assms
  by (simp add: sensitivity_entry_def getitem_Some truediv_def expected_cell_def Let_def)

lemma sensitivity_entry_zero:
  assumes "map_of (operating_model s) 5 = Some oy" and "sponsor_equity s = 0"
  shows "sensitivity_entry s base ra ea = Inl ZeroDivisionError"
  using assms
  by (simp add: sensitivity_entry_def getitem_Some truediv_def Let_def)

lemma ebitda_loop_eq:
  assumes "map_of (operating_model s) 5 = Some oy" and "sponsor_equity s \<noteq> 0"
  shows "ebitda_loop s base ra es grid =
           Inr (grid @ map (expected_cell (ebitda oy) (remaining_debt base) (sponsor_equity s) ra) es)"
  by (induction es arbitrary: grid) (simp_all add: sensitivity_entry_eq [OF assms])

lemma revenue_loop_eq:
  assumes "map_of (operating_model s) 5 = Some oy" and "sponsor_equity s \<noteq> 0"
  shows "revenue_loop s base rs es grid =
           Inr (grid @ concat (map (\<lambda>ra.
                  map (expected_cell (ebitda oy) (remaining_debt base) (sponsor_equity s) ra) es) rs))"
  by (induction rs arbitrary: grid) (simp_all add: ebitda_loop_eq [OF assms])

lemma sensitivity_analysis_eq:
  assumes "map_of (returns_analysis s) ''10.0x'' = Some base"
    and "map_of (operating_model s) 5 = Some oy" and "sponsor_equity s \<noteq> 0"
  shows "sensitivity_analysis s rs es =
           Inr (Some (concat (map (\<lambda>ra.
                  map (expected_cell (ebitda oy) (remaining_debt base) (sponsor_equity s) ra) es) rs)))"
proof -
  from assms(1) have "returns_analysis s \<noteq> []" by auto
  then show ?thesis
    using assms(1)
    by (simp add: sensitivity_analysis_def getitem_Some revenue_loop_eq [OF assms(2,3)])
qed

lemma sensitivity_analysis_zero_equity:
  assumes "map_of (returns_analysis s) ''10.0x'' = Some base"
    and "map_of (operating_model s) 5 = Some oy" and "sponsor_equity s = 0"
    and "rs \<noteq> []" and "es \<noteq> []"
  shows "sensitivity_analysis s rs es = Inl ZeroDivisionError"
proof -
  from assms(1) have ne: "returns_analysis s \<noteq> []" by auto
  from assms(4) obtain ra rs' where rs: "rs = ra # rs'" by (cases rs) auto
  from assms(5) obtain ea es' where es: "es = ea # es'" by (cases es) auto
  show ?thesis
    using ne assms(1)
    by (simp add: sensitivity_analysis_def getitem_Some rs es
        sensitivity_entry_zero [OF assms(2,3)])
qed

text \<open>
  Claim C8. When the 10.0x scenario and year 5 of the operating model exist and the sponsor
  equity is not 0, \<^verbatim>\<open>sensitivity_analysis\<close> with the default adjustments returns exactly 9
  rows, in the order of the Cartesian product with the revenue adjustment outermost, and
  every row is the cell computed from adjusted EBITDA = year-5 EBITDA * (1 + revenue
  adjustment) * (1 + EBITDA adjustment), enterprise value = adjusted EBITDA * 10 and the
  remaining debt of the 10.0x scenario.
\<close>

theorem sensitivity_grid_default:
  assumes "map_of (returns_analysis s) ''10.0x'' = Some base"
    and "map_of (operating_model s) 5 = Some oy" and "sponsor_equity s \<noteq> 0"
  shows "\<exists>grid.
           sensitivity_analysis s default_revenue_sensitivity default_ebitda_sensitivity =
             Inr (Some grid) \<and>
           length grid = 9 \<and>
           map (\<lambda>c. (revenue_adj c, ebitda_adj c)) grid =
             [(- (1 / 10), - (2 / 100)), (- (1 / 10), 0), (- (1 / 10), 2 / 100),
              (0, - (2 / 100)), (0, 0), (0, 2 / 100),
              (1 / 10, - (2 / 100)), (1 / 10, 0), (1 / 10, 2 / 100)] \<and>
           (\<forall>c\<in>set grid.
              c = expected_cell (ebitda oy) (remaining_debt base) (sponsor_equity s)
                    (revenue_adj c) (ebitda_adj c))"
proof -
  let ?cell = "expected_cell (ebitda oy) (remaining_debt base) (sponsor_equity s)"
  let ?grid = "[?cell (- (1 / 10)) (- (2 / 100)), ?cell (- (1 / 10)) 0, ?cell (- (1 / 10)) (2 / 100),
                ?cell 0 (- (2 / 100)), ?cell 0 0, ?cell 0 (2 / 100),
                ?cell (1 / 10) (- (2 / 100)), ?cell (1 / 10) 0, ?cell (1 / 10) (2 / 100)]"
  have run: "sensitivity_analysis s default_revenue_sensitivity default_ebitda_sensitivity =
      Inr (Some ?grid)"
    unfolding sensitivity_analysis_eq [OF assms]
    by (simp add: default_revenue_sensitivity_def default_ebitda_sensitivity_def)
  have len: "length ?grid = 9" by simp
  have order: "map (\<lambda>c. (revenue_adj c, ebitda_adj c)) ?grid =
             [(- (1 / 10), - (2 / 100)), (- (1 / 10), 0), (- (1 / 10), 2 / 100),
              (0, - (2 / 100)), (0, 0), (0, 2 / 100),
              (1 / 10, - (2 / 100)), (1 / 10, 0), (1 / 10, 2 / 100)]"
    by (simp add: expected_cell_adj)
  have cells: "\<forall>c\<in>set ?grid. c = ?cell (revenue_adj c) (ebitda_adj c)"
    by (simp add: expected_cell_adj)
  show ?thesis
    by (rule exI [of _ ?grid]) (intro conjI run len order cells)
qed


lemma exit_analysis_default:
  assumes "map_of (operating_model s) 5 = Some oy"
    and "map_of (debt_schedule s) 5 = Some ys"
  shows "\<exists>results base.
           exit_analysis s None default_exit_year =
             Inr (Some results, s\<lparr>returns_analysis := results\<rparr>) \<and>
           map_of results ''10.0x'' = Some base"
proof -
  have ne: "(5::int) \<noteq> 0" by simp
  let ?ms = "exit_multiples_of None"
  from exit_loop_results [OF ne, of s "ebitda oy" "total_ending_balance ys" ?ms "[]"]
  obtain results where
    loop: "exit_loop s (ebitda oy) (total_ending_balance ys) 5 ?ms [] = Inr results"
    and ent: "\<forall>m\<in>set ?ms. \<exists>r m'. map_of results (format_multiple m) = Some r \<and> m' \<in> set ?ms \<and>
                format_multiple m' = format_multiple m \<and>
                exit_entry s (ebitda oy) (total_ending_balance ys) 5 m' = Inr r"
    by blast
  have "(10::real) \<in> set ?ms"
    by (simp add: exit_multiples_of_def default_exit_multiples_def)
  from bspec [OF ent this] obtain base where "map_of results ''10.0x'' = Some base"
    by (auto simp: format_default_multiples)
  with exit_analysis_run [OF assms loop] show ?thesis
    by (auto simp: default_exit_year_def)
qed

lemma example_run_shape:
  "sponsor_equity (example_run equity) = equity \<and>
   (\<exists>oy. map_of (operating_model (example_run equity)) 5 = Some oy) \<and>
   (\<exists>base. map_of (returns_analysis (example_run equity)) ''10.0x'' = Some base) \<and>
   (\<exists>ys. map_of (debt_schedule (example_run equity)) 5 = Some ys)"
proof -
  define s1 where "s1 = snd (structure_debt (init ''TechCorp Industries'' 500 equity) 100 200 25 25)"
  have ds1: "map fst (debt_structure s1) =
      [''Term Loan A'', ''Term Loan B'', ''Revolver'', ''Subordinated Debt'']"
    and eq1: "sponsor_equity s1 = equity"
    by (simp_all add: s1_def structure_debt_def init_def Let_def)
  have "[8 / 100, 7 / 100, 6 / 100, 5 / 100] \<noteq> ([] :: real list)" by simp
  from build_operating_model_ok [OF this, of s1 200 "25 / 100" default_capex_rate
      default_nwc_rate default_tax_rate]
  obtain oy1 oy2 oy3 oy4 oy5 where
    b: "build_operating_model s1 200 [8 / 100, 7 / 100, 6 / 100, 5 / 100] (25 / 100)
          default_capex_rate default_nwc_rate default_tax_rate =
        Inr ([(1, oy1), (2, oy2), (3, oy3), (4, oy4), (5, oy5)],
             s1\<lparr>operating_model := [(1, oy1), (2, oy2), (3, oy3), (4, oy4), (5, oy5)]\<rparr>)"
    by blast
  define s2 where "s2 = s1\<lparr>operating_model := [(1, oy1), (2, oy2), (3, oy3), (4, oy4), (5, oy5)]\<rparr>"
  have ds2: "debt_structure s2 = debt_structure s1" and eq2: "sponsor_equity s2 = equity"
    and om2: "operating_model s2 = [(1, oy1), (2, oy2), (3, oy3), (4, oy4), (5, oy5)]"
    by (simp_all add: s2_def eq1)
  have "debt_structure s2 \<noteq> []" using ds1 by (auto simp: ds2)
  moreover have "distinct (map fst (debt_structure s2))" by (simp add: ds2 ds1)
  moreover have "\<forall>y\<in>set years. map_of (operating_model s2) y \<noteq> None"
    by (simp add: om2 years_def)
  ultimately have "schedulable s2" by (simp add: schedulable_def)
  from scheduled_state [OF this] obtain sched ys where
    m: "model_debt_schedule s2 = Inr (Some sched, s2\<lparr>debt_schedule := sched\<rparr>)"
    and ys: "map_of sched 5 = Some ys"
    by blast
  define s3 where "s3 = s2\<lparr>debt_schedule := sched\<rparr>"
  have oy3: "map_of (operating_model s3) 5 = Some oy5" by (simp add: s3_def om2)
  have sc3: "map_of (debt_schedule s3) 5 = Some ys" by (simp add: s3_def ys)
  have eq3: "sponsor_equity s3 = equity" by (simp add: s3_def eq2)
  from exit_analysis_default [OF oy3 sc3] obtain results base where
    x: "exit_analysis s3 None default_exit_year = Inr (Some results, s3\<lparr>returns_analysis := results\<rparr>)"
    and base: "map_of results ''10.0x'' = Some base"
    by blast
  have run: "example_run equity = s3\<lparr>returns_analysis := results\<rparr>"
    unfolding example_run_def Let_def
    using b m x by (simp add: s1_def [symmetric] s2_def [symmetric] s3_def [symmetric])
  show ?thesis
    unfolding run using eq3 oy3 base sc3 by simp
qed

theorem sensitivity_grid_default_witness:
  "\<exists>base oy grid.
     map_of (returns_analysis (example_run 150)) ''10.0x'' = Some base \<and>
     map_of (operating_model (example_run 150)) 5 = Some oy \<and>
     sponsor_equity (example_run 150) \<noteq> 0 \<and>
     sensitivity_analysis (example_run 150) default_revenue_sensitivity
         default_ebitda_sensitivity = Inr (Some grid) \<and>
     length grid = 9 \<and>
     grid ! 5 = expected_cell (ebitda oy) (remaining_debt base) 150 0 (2 / 100)"
proof -
  from example_run_shape [of 150] obtain oy base where
    eq: "sponsor_equity (example_run 150) = 150"
    and oy: "map_of (operating_model (example_run 150)) 5 = Some oy"
    and base: "map_of (returns_analysis (example_run 150)) ''10.0x'' = Some base"
    by blast
  from eq have ne: "sponsor_equity (example_run 150) \<noteq> 0" by simp
  from sensitivity_grid_default [OF base oy ne] obtain grid where
    run: "sensitivity_analysis (example_run 150) default_revenue_sensitivity
         default_ebitda_sensitivity = Inr (Some grid)"
    and len: "length grid = 9"
    and order: "map (\<lambda>c. (revenue_adj c, ebitda_adj c)) grid =
             [(- (1 / 10), - (2 / 100)), (- (1 / 10), 0), (- (1 / 10), 2 / 100),
              (0, - (2 / 100)), (0, 0), (0, 2 / 100),
              (1 / 10, - (2 / 100)), (1 / 10, 0), (1 / 10, 2 / 100)]"
    and cells: "\<forall>c\<in>set grid.
              c = expected_cell (ebitda oy) (remaining_debt base) (sponsor_equity (example_run 150))
                    (revenue_adj c) (ebitda_adj c)"
    by (elim exE conjE)
  from len have mem: "grid ! 5 \<in> set grid" by simp
  from len have "map (\<lambda>c. (revenue_adj c, ebitda_adj c)) grid ! 5 =
      (revenue_adj (grid ! 5), ebitda_adj (grid ! 5))"
    by simp
  with order have adj: "revenue_adj (grid ! 5) = 0" "ebitda_adj (grid ! 5) = 2 / 100"
    by simp_all
  from bspec [OF cells mem] have
    "grid ! 5 = expected_cell (ebitda oy) (remaining_debt base) 150 0 (2 / 100)"
    unfolding eq adj .
  with base oy ne run len show ?thesis by blast
qed

section \<open>Division by the sponsor equity\<close>

text \<open>
  Claim C4 (the code departs from it). Run of the source's \<^verbatim>\<open>__main__\<close> sequence with a
  sponsor equity of 0: \<^verbatim>\<open>exit_analysis\<close> guards its division and stores the scenarios, and
  \<^verbatim>\<open>sensitivity_analysis\<close> then divides by the sponsor equity without a guard and raises
  \<^verbatim>\<open>ZeroDivisionError\<close>.
\<close>

theorem sensitivity_zero_equity_raises:
  "sensitivity_analysis (example_run 0) default_revenue_sensitivity default_ebitda_sensitivity =
     Inl ZeroDivisionError"
proof -
  from example_run_shape [of 0] obtain oy base where
    eq: "sponsor_equity (example_run 0) = 0"
    and oy: "map_of (operating_model (example_run 0)) 5 = Some oy"
    and base: "map_of (returns_analysis (example_run 0)) ''10.0x'' = Some base"
    by blast
  have "default_revenue_sensitivity \<noteq> []" "default_ebitda_sensitivity \<noteq> []"
    by (simp_all add: default_revenue_sensitivity_def default_ebitda_sensitivity_def)
  from sensitivity_analysis_zero_equity [OF base oy eq this] show ?thesis .
qed

section \<open>Stages invoked before their prerequisites\<close>




end
